theory Spec2Isabelle
  imports Complex_Main "HOL-Library.Sublist"
begin

section \<open>Values and the Python primitives used by bot.py\<close>

text \<open>
  A Python float: a finite value, kept as the exact rational it stands for (\<open>Finite 0\<close> is
  the positive zero), the negative zero, the two infinities, or NaN.
\<close>

datatype pyfloat = Finite rat | NegZero | PosInf | NegInf | NaN

text \<open>
  The bot works on decoded JSON. The decoder gives a Python int for an integer literal
  and a float for any other number (an infinity when the literal is out of range); an
  object is an association list read with \<open>map_of\<close>, the decoder having kept one value
  per key. Strings are byte lists in UTF-8, so the emoji of the messages are written
  byte by byte.
\<close>

datatype json =
    JNull
  | JBool bool
  | JInt int
  | JFloat pyfloat
  | JStr string
  | JArr "json list"
  | JObj "(string \<times> json) list"

datatype error =
    KeyError | TypeError | ValueError | AttributeError | IndexError | OverflowError
  | ZeroDivisionError | ConnectionError | Timeout | HTTPError | JSONDecodeError
  | TelegramError

text \<open>
  Four built-ins of Python are not re-implemented but taken as parameters: \<open>str()\<close> on a
  value that is not a string (\<open>py_repr\<close>), \<open>float()\<close> on a string (\<open>float_of_str\<close>, \<open>None\<close>
  standing for ValueError), and the methods \<open>str.lower\<close> and \<open>str.title\<close>.
\<close>

record builtins =
  py_repr :: "json \<Rightarrow> string"
  float_of_str :: "string \<Rightarrow> pyfloat option"
  str_lower :: "string \<Rightarrow> string"
  str_title :: "string \<Rightarrow> string"

definition bindE :: "error + 'a \<Rightarrow> ('a \<Rightarrow> error + 'b) \<Rightarrow> error + 'b" where
  "bindE m f = (case m of Inl e \<Rightarrow> Inl e | Inr x \<Rightarrow> f x)"

text \<open>\<open>str(v)\<close>, as an f-string field \<open>{v}\<close> renders it.\<close>

definition py_str :: "builtins \<Rightarrow> json \<Rightarrow> string" where
  "py_str B v = (case v of JStr s \<Rightarrow> s | _ \<Rightarrow> py_repr B v)"

text \<open>Truth value of \<open>if v:\<close>.\<close>

fun truthy :: "json \<Rightarrow> bool" where
  "truthy JNull = False"
| "truthy (JBool b) = b"
| "truthy (JInt i) = (i \<noteq> 0)"
| "truthy (JFloat f) = (f \<noteq> Finite 0 \<and> f \<noteq> NegZero)"
| "truthy (JStr s) = (s \<noteq> [])"
| "truthy (JArr xs) = (xs \<noteq> [])"
| "truthy (JObj kvs) = (kvs \<noteq> [])"

text \<open>\<open>v[k]\<close> with a string key: only a dict accepts it, and raises KeyError without it.\<close>

fun getitem :: "json \<Rightarrow> string \<Rightarrow> error + json" where
  "getitem (JObj kvs) k = (case map_of kvs k of None \<Rightarrow> Inl KeyError | Some v \<Rightarrow> Inr v)"
| "getitem _ k = Inl TypeError"

text \<open>\<open>v.get(k, d)\<close>: only a dict has the method.\<close>

fun dict_get :: "json \<Rightarrow> string \<Rightarrow> json \<Rightarrow> error + json" where
  "dict_get (JObj kvs) k d = Inr (case map_of kvs k of None \<Rightarrow> d | Some v \<Rightarrow> v)"
| "dict_get _ k d = Inl AttributeError"

text \<open>\<open>len(v)\<close> and \<open>v[0]\<close>.\<close>

fun py_len :: "json \<Rightarrow> error + nat" where
  "py_len (JArr xs) = Inr (length xs)"
| "py_len (JStr s) = Inr (length s)"
| "py_len (JObj kvs) = Inr (length kvs)"
| "py_len _ = Inl TypeError"

fun index0 :: "json \<Rightarrow> error + json" where
  "index0 (JArr []) = Inl IndexError"
| "index0 (JArr (x # xs)) = Inr x"
| "index0 (JStr []) = Inl IndexError"
| "index0 (JStr (c # cs)) = Inr (JStr [c])"
| "index0 (JObj kvs) = Inl KeyError"
| "index0 _ = Inl TypeError"

text \<open>\<open>k in v\<close> for a string \<open>k\<close>.\<close>

fun py_in :: "string \<Rightarrow> json \<Rightarrow> error + bool" where
  "py_in k (JObj kvs) = Inr (k \<in> fst ` set kvs)"
| "py_in k (JArr xs) = Inr (JStr k \<in> set xs)"
| "py_in k (JStr s) = Inr (sublist k s)"
| "py_in k _ = Inl TypeError"

text \<open>A value used as a number: an int, a float, or a \<open>bool\<close>, which is a subclass of \<open>int\<close>.\<close>

datatype pynum = PyInt int | PyFloat pyfloat

fun as_number :: "json \<Rightarrow> pynum option" where
  "as_number (JInt i) = Some (PyInt i)"
| "as_number (JFloat f) = Some (PyFloat f)"
| "as_number (JBool b) = Some (PyInt (if b then 1 else 0))"
| "as_number _ = None"

section \<open>Floats: conversion, division and fixed-point rendering\<close>

definition round_half_even :: "rat \<Rightarrow> int" where
  "round_half_even x =
     (let n = \<lfloor>x\<rfloor>; f = x - of_int n
      in if f < 1 / 2 then n else if 1 / 2 < f then n + 1 else if even n then n else n + 1)"

fun bitlen :: "nat \<Rightarrow> nat" where
  "bitlen n = (if n = 0 then 0 else Suc (bitlen (n div 2)))"

declare bitlen.simps [simp del]

definition pow2 :: "int \<Rightarrow> rat" where
  "pow2 s = (if 0 \<le> s then 2 ^ nat s else 1 / 2 ^ nat (- s))"

text \<open>\<open>\<lfloor>log\<^sub>2 a\<rfloor>\<close> for a positive rational.\<close>

definition ilog2 :: "rat \<Rightarrow> int" where
  "ilog2 a =
     (if 1 \<le> a then int (bitlen (nat \<lfloor>a\<rfloor>)) - 1
      else - int (bitlen (nat \<lceil>1 / a\<rceil> - 1)))"

text \<open>
  Rounding to binary64, ties to even: 53 significant bits, and below \<open>2\<^sup>-\<^sup>1\<^sup>0\<^sup>2\<^sup>2\<close> the fixed
  spacing of the subnormal numbers. The result is not bounded above; \<open>float_range\<close> says
  that it is below \<open>2\<^sup>1\<^sup>0\<^sup>2\<^sup>4\<close>, the first value a float cannot hold.
\<close>

definition round64 :: "rat \<Rightarrow> rat" where
  "round64 x =
     (if x = 0 then 0
      else let a = \<bar>x\<bar>; e = max (ilog2 a) (- 1022); s = 52 - e;
               m = round_half_even (a * pow2 s)
           in sgn x * of_int m * pow2 (- s))"

definition float_range :: "rat \<Rightarrow> bool" where
  "float_range x = (\<bar>round64 x\<bar> < 2 ^ 1024)"

text \<open>\<open>float(i)\<close> for an int: the nearest float, OverflowError beyond the range.\<close>

definition float_of_int :: "int \<Rightarrow> error + rat" where
  "float_of_int i = (if float_range (of_int i) then Inr (round64 (of_int i)) else Inl OverflowError)"

text \<open>
  \<open>a / b\<close> for two ints: the correctly rounded quotient, ZeroDivisionError for \<open>b = 0\<close>,
  OverflowError when the result is beyond the range of a float.
\<close>

definition int_true_div :: "int \<Rightarrow> int \<Rightarrow> error + pyfloat" where
  "int_true_div a b =
     (if b = 0 then Inl ZeroDivisionError
      else let q = of_int a / of_int b in
        if \<not> float_range q then Inl OverflowError
        else if round64 q = 0 \<and> (a < 0) \<noteq> (b < 0) then Inr NegZero
        else Inr (Finite (round64 q)))"

text \<open>
  \<open>f / d\<close> for a float \<open>f\<close> and a finite float \<open>d\<close>: the division of IEEE 754, which overflows
  to an infinity; Python raises ZeroDivisionError for \<open>d = 0\<close>.
\<close>

definition float_over :: "pyfloat \<Rightarrow> rat \<Rightarrow> error + pyfloat" where
  "float_over f d =
     (if d = 0 then Inl ZeroDivisionError
      else case f of
        NaN \<Rightarrow> Inr NaN
      | PosInf \<Rightarrow> Inr (if 0 < d then PosInf else NegInf)
      | NegInf \<Rightarrow> Inr (if 0 < d then NegInf else PosInf)
      | NegZero \<Rightarrow> Inr (if 0 < d then NegZero else Finite 0)
      | Finite r \<Rightarrow>
          (let q = r / d in
           if \<not> float_range q then Inr (if 0 < q then PosInf else NegInf)
           else if round64 q = 0 \<and> (r < 0) \<noteq> (d < 0) then Inr NegZero
           else Inr (Finite (round64 q))))"

text \<open>\<open>n / b\<close> and \<open>n >= b\<close> for a number \<open>n\<close> and an int \<open>b\<close>, and \<open>float(n)\<close>.\<close>

fun num_div :: "pynum \<Rightarrow> int \<Rightarrow> error + pyfloat" where
  "num_div (PyInt a) b = int_true_div a b"
| "num_div (PyFloat f) b = bindE (float_of_int b) (float_over f)"

fun num_ge :: "pynum \<Rightarrow> int \<Rightarrow> bool" where
  "num_ge (PyInt a) b = (b \<le> a)"
| "num_ge (PyFloat (Finite r)) b = (of_int b \<le> r)"
| "num_ge (PyFloat NegZero) b = (b \<le> 0)"
| "num_ge (PyFloat PosInf) b = True"
| "num_ge (PyFloat NegInf) b = False"
| "num_ge (PyFloat NaN) b = False"

fun num_float :: "pynum \<Rightarrow> error + pyfloat" where
  "num_float (PyInt a) = bindE (float_of_int a) (\<lambda>r. Inr (Finite r))"
| "num_float (PyFloat f) = Inr f"

definition digit_char :: "nat \<Rightarrow> char" where
  "digit_char d = ''0123456789'' ! d"

fun digits :: "nat \<Rightarrow> string" where
  "digits n = (if n < 10 then [digit_char n] else digits (n div 10) @ [digit_char (n mod 10)])"

declare digits.simps [simp del]

text \<open>
  \<open>format(x, '.df')\<close> for a finite float \<open>x\<close>: the exact value rounded to \<open>d\<close> decimals, ties
  to even, a minus sign for every negative value (also one that rounds to zero).
\<close>

definition fmt_fixed :: "nat \<Rightarrow> rat \<Rightarrow> string" where
  "fmt_fixed d x =
     (let s = nat (round_half_even (\<bar>x\<bar> * 10 ^ d));
          ip = digits (s div 10 ^ d);
          fp = digits (s mod 10 ^ d)
      in (if x < 0 then ''-'' else '''') @ ip @
         (if d = 0 then '''' else ''.'' @ replicate (d - length fp) (CHR ''0'') @ fp))"

text \<open>\<open>format(f, '.df')\<close> for any float.\<close>

fun fmt_float :: "nat \<Rightarrow> pyfloat \<Rightarrow> string" where
  "fmt_float d (Finite r) = fmt_fixed d r"
| "fmt_float d NegZero = ''-'' @ fmt_fixed d 0"
| "fmt_float d PosInf = ''inf''"
| "fmt_float d NegInf = ''-inf''"
| "fmt_float d NaN = ''nan''"

section \<open>format\_number\<close>

text \<open>
  \<^verbatim>\<open>if num >= 1_000_000_000: return f"${num / 1_000_000_000:.2f}B"\<close> and so on. A value
  that is not a number makes the first comparison raise TypeError; an int is divided as
  an int, and in the last line it is converted to a float by the format.
\<close>

definition format_number :: "json \<Rightarrow> error + string" where
  "format_number num =
     (case as_number num of
        None \<Rightarrow> Inl TypeError
      | Some n \<Rightarrow>
          if num_ge n 1000000000
          then bindE (num_div n 1000000000) (\<lambda>q. Inr (''$'' @ fmt_float 2 q @ ''B''))
          else if num_ge n 1000000
          then bindE (num_div n 1000000) (\<lambda>q. Inr (''$'' @ fmt_float 2 q @ ''M''))
          else if num_ge n 1000
          then bindE (num_div n 1000) (\<lambda>q. Inr (''$'' @ fmt_float 2 q @ ''K''))
          else bindE (num_float n) (\<lambda>f. Inr (''$'' @ fmt_float 2 f)))"

section \<open>get\_token\_info\<close>

text \<open>
  What the three calls \<^verbatim>\<open>requests.get(...)\<close>, \<^verbatim>\<open>response.raise_for_status()\<close> and
  \<^verbatim>\<open>response.json()\<close> give: an exception (\<open>ConnectionError\<close>, \<open>Timeout\<close>, \<open>HTTPError\<close> from
  the status check, \<open>JSONDecodeError\<close> from a malformed body) or the decoded body.
\<close>

datatype http_result = Failed error | Body json

record token_info =
  name :: json
  symbol :: json
  market_cap :: json
  fdv :: json
  price_usd :: json
  liquidity_usd :: json
  info :: json

text \<open>The dict built from the first pair (lines 73 to 81).\<close>

definition pair_info :: "json \<Rightarrow> error + token_info" where
  "pair_info pair =
     bindE (getitem pair ''baseToken'') (\<lambda>bt.
     bindE (getitem bt ''name'') (\<lambda>n.
     bindE (getitem bt ''symbol'') (\<lambda>sy.
     bindE (dict_get pair ''marketCap'' (JInt 0)) (\<lambda>mc.
     bindE (dict_get pair ''fdv'' (JInt 0)) (\<lambda>fd.
     bindE (dict_get pair ''priceUsd'' (JStr ''0'')) (\<lambda>pr.
     bindE (dict_get pair ''liquidity'' (JObj [])) (\<lambda>liq.
     bindE (dict_get liq ''usd'' (JInt 0)) (\<lambda>usd.
     bindE (dict_get pair ''info'' (JObj [])) (\<lambda>nfo.
       Inr \<lparr>name = n, symbol = sy, market_cap = mc, fdv = fd, price_usd = pr,
            liquidity_usd = usd, info = nfo\<rparr>)))))))))"

text \<open>The body of the \<^verbatim>\<open>try\<close> (lines 62 to 82), on the response of the metrics endpoint.\<close>

definition fetch_token_info :: "http_result \<Rightarrow> error + token_info option" where
  "fetch_token_info r =
     (case r of
        Failed e \<Rightarrow> Inl e
      | Body data \<Rightarrow>
          bindE (dict_get data ''pairs'' JNull) (\<lambda>pairs.
            if truthy pairs then
              bindE (getitem data ''pairs'') (\<lambda>ps.
              bindE (py_len ps) (\<lambda>n.
                if 0 < n then
                  bindE (index0 ps) (\<lambda>pair.
                  bindE (pair_info pair) (\<lambda>ti. Inr (Some ti)))
                else Inr None))
            else Inr None))"

text \<open>
  \<open>get_token_info\<close> itself: every exception is logged and turned into \<open>None\<close>. The second
  component is the error that was logged, if any.
\<close>

definition get_token_info :: "http_result \<Rightarrow> token_info option \<times> error option" where
  "get_token_info r =
     (case fetch_token_info r of Inl e \<Rightarrow> (None, Some e) | Inr t \<Rightarrow> (t, None))"

section \<open>format\_social\_links\<close>

definition nl :: string where "nl = [CHR 0x0A]"
definition fire :: string where "fire = [CHR 0xF0, CHR 0x9F, CHR 0x94, CHR 0xA5]"
definition moneybag :: string where "moneybag = [CHR 0xF0, CHR 0x9F, CHR 0x92, CHR 0xB0]"
definition rocket :: string where "rocket = [CHR 0xF0, CHR 0x9F, CHR 0x9A, CHR 0x80]"
definition memo :: string where "memo = [CHR 0xF0, CHR 0x9F, CHR 0x93, CHR 0x9D]"
definition link_icon :: string where "link_icon = [CHR 0xF0, CHR 0x9F, CHR 0x94, CHR 0x97]"
definition bullet :: string where "bullet = [CHR 0xE2, CHR 0x80, CHR 0xA2]"
definition globe :: string where "globe = [CHR 0xF0, CHR 0x9F, CHR 0x8C, CHR 0x90]"
definition bird :: string where "bird = [CHR 0xF0, CHR 0x9F, CHR 0x90, CHR 0xA6]"
definition phone :: string where "phone = [CHR 0xF0, CHR 0x9F, CHR 0x93, CHR 0xB1]"
definition speech :: string where "speech = [CHR 0xF0, CHR 0x9F, CHR 0x92, CHR 0xAC]"
definition laptop :: string where "laptop = [CHR 0xF0, CHR 0x9F, CHR 0x92, CHR 0xBB]"

text \<open>\<open>for x in v\<close>: a list gives its items, a dict its keys, a string its characters.\<close>

fun py_iter :: "json \<Rightarrow> error + json list" where
  "py_iter (JArr xs) = Inr xs"
| "py_iter (JObj kvs) = Inr (map (\<lambda>kv. JStr (fst kv)) kvs)"
| "py_iter (JStr s) = Inr (map (\<lambda>c. JStr [c]) s)"
| "py_iter _ = Inl TypeError"

text \<open>A loop that appends at most one link per item and stops at the first exception.\<close>

fun collect :: "(json \<Rightarrow> error + string option) \<Rightarrow> json list \<Rightarrow> error + string list" where
  "collect f [] = Inr []"
| "collect f (x # xs) =
     (case f x of
        Inl e \<Rightarrow> Inl e
      | Inr r \<Rightarrow>
          (case collect f xs of
             Inl e \<Rightarrow> Inl e
           | Inr ls \<Rightarrow> Inr ((case r of None \<Rightarrow> [] | Some l \<Rightarrow> [l]) @ ls)))"

definition website_link :: "builtins \<Rightarrow> json \<Rightarrow> error + string option" where
  "website_link B website =
     bindE (dict_get website ''url'' JNull) (\<lambda>u.
       if truthy u
       then bindE (getitem website ''url'') (\<lambda>u'.
              Inr (Some (globe @ '' [Website]('' @ py_str B u' @ '')'')))
       else Inr None)"

definition platform_icons :: "string \<Rightarrow> string" where
  "platform_icons platform =
     (if platform = ''twitter'' then bird
      else if platform = ''telegram'' then phone
      else if platform = ''discord'' then speech
      else if platform = ''medium'' then memo
      else if platform = ''github'' then laptop
      else link_icon)"

definition social_link :: "builtins \<Rightarrow> json \<Rightarrow> error + string option" where
  "social_link B social =
     bindE (dict_get social ''platform'' (JStr [])) (\<lambda>p.
       case p of
         JStr ps \<Rightarrow>
           (let platform = str_lower B ps in
            bindE (dict_get social ''handle'' (JStr [])) (\<lambda>handle.
              let icon = platform_icons platform in
              if platform \<noteq> [] \<and> truthy handle then
                if platform = ''twitter''
                then Inr (Some (icon @ '' [Twitter](https://twitter.com/'' @ py_str B handle @ '')''))
                else if platform = ''telegram''
                then Inr (Some (icon @ '' [Telegram](https://t.me/'' @ py_str B handle @ '')''))
                else if platform = ''discord''
                then Inr (Some (icon @ '' [Discord]('' @ py_str B handle @ '')''))
                else Inr (Some (icon @ '' ['' @ str_title B platform @ '']('' @ py_str B handle @ '')''))
              else Inr None))
       | _ \<Rightarrow> Inl AttributeError)"

text \<open>\<^verbatim>\<open>if key in info and info[key]: for x in info[key]: ...\<close>\<close>

definition links_under :: "string \<Rightarrow> (json \<Rightarrow> error + string option) \<Rightarrow> json \<Rightarrow> error + string list" where
  "links_under key f nfo =
     bindE (py_in key nfo) (\<lambda>has.
       if has then
         bindE (getitem nfo key) (\<lambda>v.
           if truthy v then bindE (py_iter v) (collect f) else Inr [])
       else Inr [])"

fun join :: "string \<Rightarrow> string list \<Rightarrow> string" where
  "join sep [] = []"
| "join sep [x] = x"
| "join sep (x # y # ys) = x @ sep @ join sep (y # ys)"

definition format_social_links :: "builtins \<Rightarrow> json \<Rightarrow> error + string" where
  "format_social_links B nfo =
     bindE (links_under ''websites'' (website_link B) nfo) (\<lambda>l1.
     bindE (links_under ''socials'' (social_link B) nfo) (\<lambda>l2.
       let links = l1 @ l2 in
       Inr (if links \<noteq> [] then join nl links else ''No social links available'')))"

section \<open>send\_notification\<close>

text \<open>\<open>float(v)\<close>, as \<^verbatim>\<open>float(token_info['price_usd'])\<close> uses it.\<close>

definition py_float :: "builtins \<Rightarrow> json \<Rightarrow> error + pyfloat" where
  "py_float B v =
     (case v of
        JStr s \<Rightarrow> (case float_of_str B s of None \<Rightarrow> Inl ValueError | Some f \<Rightarrow> Inr f)
      | JInt i \<Rightarrow> bindE (float_of_int i) (\<lambda>r. Inr (Finite r))
      | JFloat f \<Rightarrow> Inr f
      | JBool b \<Rightarrow> Inr (Finite (if b then 1 else 0))
      | _ \<Rightarrow> Inl TypeError)"

definition header :: string where
  "header = fire @ '' *NEW TOKEN BOOST DETECTED* '' @ fire @ nl @ nl"

text \<open>The message when the token information was retrieved (lines 139 to 166).\<close>

definition full_message :: "builtins \<Rightarrow> json \<Rightarrow> token_info \<Rightarrow> error + string" where
  "full_message B boost_data ti =
     bindE (getitem boost_data ''chainId'') (\<lambda>chain.
     bindE (getitem boost_data ''tokenAddress'') (\<lambda>addr.
     bindE (format_number (market_cap ti)) (\<lambda>mc.
     bindE (format_number (fdv ti)) (\<lambda>fd.
     bindE (py_float B (price_usd ti)) (\<lambda>price.
     bindE (format_number (liquidity_usd ti)) (\<lambda>liq.
     bindE (getitem boost_data ''amount'') (\<lambda>amount.
     bindE (format_number amount) (\<lambda>amt.
     bindE (getitem boost_data ''totalAmount'') (\<lambda>total.
     bindE (format_number total) (\<lambda>tot.
     bindE (dict_get boost_data ''description'' JNull) (\<lambda>descr.
     bindE (if truthy descr then getitem boost_data ''description'' else Inr JNull) (\<lambda>descr'.
     bindE (dict_get boost_data ''url'' JNull) (\<lambda>url.
     bindE (if truthy url then getitem boost_data ''url'' else Inr JNull) (\<lambda>url'.
     bindE (if truthy (info ti) then format_social_links B (info ti) else Inr []) (\<lambda>social.
       Inr (header
          @ ''*Token:* '' @ py_str B (name ti) @ '' ('' @ py_str B (symbol ti) @ '')'' @ nl
          @ ''*Chain:* '' @ py_str B chain @ nl
          @ ''*Address:* `'' @ py_str B addr @ ''`'' @ nl @ nl
          @ ''*'' @ moneybag @ '' Token Metrics:*'' @ nl
          @ bullet @ '' Market Cap: '' @ mc @ nl
          @ bullet @ '' FDV: '' @ fd @ nl
          @ bullet @ '' Price: $'' @ fmt_float 8 price @ nl
          @ bullet @ '' Liquidity: '' @ liq @ nl @ nl
          @ ''*'' @ rocket @ '' Boost Details:*'' @ nl
          @ bullet @ '' Boost Amount: '' @ amt @ nl
          @ bullet @ '' Total Amount: '' @ tot @ nl
          @ (if truthy descr
             then nl @ ''*'' @ memo @ '' Description:*'' @ nl @ py_str B descr' @ nl else [])
          @ nl @ ''*'' @ link_icon @ '' Important Links:*'' @ nl
          @ (if truthy url then bullet @ '' [DexScreener]('' @ py_str B url' @ '')'' @ nl else [])
          @ (if truthy (info ti) then nl @ ''*Social Links:*'' @ nl @ social else [])
       ))))))))))))))))"

text \<open>The fallback message (lines 170 to 176).\<close>

definition fallback_message :: "builtins \<Rightarrow> json \<Rightarrow> error + string" where
  "fallback_message B boost_data =
     bindE (getitem boost_data ''chainId'') (\<lambda>chain.
     bindE (getitem boost_data ''tokenAddress'') (\<lambda>addr.
     bindE (getitem boost_data ''amount'') (\<lambda>amount.
     bindE (format_number amount) (\<lambda>amt.
     bindE (getitem boost_data ''totalAmount'') (\<lambda>total.
     bindE (format_number total) (\<lambda>tot.
       Inr (header
          @ ''*Chain:* '' @ py_str B chain @ nl
          @ ''*Token Address:* `'' @ py_str B addr @ ''`'' @ nl
          @ ''*Boost Amount:* '' @ amt @ nl
          @ ''*Total Amount:* '' @ tot @ nl)))))))"

text \<open>
  \<^verbatim>\<open>if token_info: ... else: ...\<close>: the dict of \<open>get_token_info\<close> is never empty, so the test
  is whether it is \<open>None\<close>.
\<close>

definition build_message :: "builtins \<Rightarrow> json \<Rightarrow> token_info option \<Rightarrow> error + string" where
  "build_message B boost_data t =
     (case t of Some ti \<Rightarrow> full_message B boost_data ti | None \<Rightarrow> fallback_message B boost_data)"

text \<open>
  What one call of \<open>send_notification\<close> did: the message was sent, or the \<^verbatim>\<open>try\<close> around
  the sending caught and logged an exception, or the call itself raised before it reached
  the sending.
\<close>

datatype outcome = Delivered string | NotDelivered string error | Raised error

record attempt =
  fetch_error :: "error option"
  outcome :: outcome

text \<open>
  The world during one cycle: the response of the feed endpoint, the response of the
  metrics endpoint when queried for an event, what the sending of the notification of an
  event raises (\<open>None\<close> when it succeeds), and the clock.
\<close>

record world =
  feed :: http_result
  metrics :: "json \<Rightarrow> http_result"
  delivery :: "json \<Rightarrow> error option"
  now :: nat

definition send_notification :: "builtins \<Rightarrow> world \<Rightarrow> json \<Rightarrow> attempt" where
  "send_notification B w boost_data =
     (case bindE (getitem boost_data ''chainId'') (\<lambda>c. getitem boost_data ''tokenAddress'') of
        Inl e \<Rightarrow> \<lparr>fetch_error = None, outcome = Raised e\<rparr>
      | Inr _ \<Rightarrow>
          (let (t, logged) = get_token_info (metrics w boost_data) in
           case build_message B boost_data t of
             Inl e \<Rightarrow> \<lparr>fetch_error = logged, outcome = Raised e\<rparr>
           | Inr message \<Rightarrow>
               (case delivery w boost_data of
                  None \<Rightarrow> \<lparr>fetch_error = logged, outcome = Delivered message\<rparr>
                | Some e \<Rightarrow> \<lparr>fetch_error = logged, outcome = NotDelivered message e\<rparr>)))"

section \<open>get\_latest\_boosts and monitor\_boosts\<close>

definition CHECK_INTERVAL :: nat where
  "CHECK_INTERVAL = 60"

text \<open>The decoded body, or \<open>[]\<close> with the logged error.\<close>

definition get_latest_boosts :: "http_result \<Rightarrow> json \<times> error option" where
  "get_latest_boosts r = (case r of Failed e \<Rightarrow> (JArr [], Some e) | Body j \<Rightarrow> (j, None))"

text \<open>\<^verbatim>\<open>if not isinstance(latest_boosts, list): latest_boosts = [latest_boosts]\<close>\<close>

definition as_list :: "json \<Rightarrow> json list" where
  "as_list j = (case j of JArr xs \<Rightarrow> xs | _ \<Rightarrow> [j])"

definition boost_id :: "builtins \<Rightarrow> json \<Rightarrow> error + string" where
  "boost_id B boost =
     bindE (getitem boost ''chainId'') (\<lambda>c.
     bindE (getitem boost ''tokenAddress'') (\<lambda>t.
       Inr (py_str B c @ ''_'' @ py_str B t)))"

record bot_state =
  known_boosts :: "string set"
  last_check_time :: nat

text \<open>
  The \<^verbatim>\<open>for\<close> loop of a cycle. It returns the exception that left it, if any, the set
  \<open>known_boosts\<close> as the loop left it, and the calls of \<open>send_notification\<close> in order.
\<close>

fun for_boosts ::
  "builtins \<Rightarrow> world \<Rightarrow> json list \<Rightarrow> string set \<Rightarrow> error option \<times> string set \<times> (json \<times> attempt) list"
where
  "for_boosts B w [] known = (None, known, [])"
| "for_boosts B w (boost # rest) known =
     (case boost_id B boost of
        Inl e \<Rightarrow> (Some e, known, [])
      | Inr k \<Rightarrow>
          if k \<notin> known then
            (let known' = insert k known; a = send_notification B w boost in
             case outcome a of
               Raised e \<Rightarrow> (Some e, known', [(boost, a)])
             | _ \<Rightarrow>
                 (case for_boosts B w rest known' of
                    (err, known'', calls) \<Rightarrow> (err, known'', (boost, a) # calls)))
          else for_boosts B w rest known)"

record cycle_report =
  poll_error :: "error option"
  attempts :: "(json \<times> attempt) list"
  loop_error :: "error option"
  slept :: nat

text \<open>
  One turn of \<^verbatim>\<open>while True\<close>: the \<^verbatim>\<open>try\<close>, whose handler logs the exception, and the
  sleep. The time of the last check is set only when the \<^verbatim>\<open>for\<close> loop ends normally.
\<close>

definition monitor_cycle :: "builtins \<Rightarrow> world \<Rightarrow> bot_state \<Rightarrow> bot_state \<times> cycle_report" where
  "monitor_cycle B w s =
     (let (raw, perr) = get_latest_boosts (feed w);
          latest_boosts = as_list raw
      in case for_boosts B w latest_boosts (known_boosts s) of
           (err, known', calls) \<Rightarrow>
             (\<lparr>known_boosts = known',
               last_check_time = (case err of None \<Rightarrow> now w | Some e \<Rightarrow> last_check_time s)\<rparr>,
              \<lparr>poll_error = perr, attempts = calls, loop_error = err, slept = CHECK_INTERVAL\<rparr>))"

text \<open>
  The loop never ends; its first cycles are run on the list of the worlds they meet.
\<close>

fun monitor_boosts :: "builtins \<Rightarrow> world list \<Rightarrow> bot_state \<Rightarrow> bot_state \<times> cycle_report list" where
  "monitor_boosts B [] s = (s, [])"
| "monitor_boosts B (w # ws) s =
     (case monitor_cycle B w s of
        (s', r) \<Rightarrow> (case monitor_boosts B ws s' of (s'', rs) \<Rightarrow> (s'', r # rs)))"

text \<open>The messages a cycle delivered, and the keys of the events it called \<open>send_notification\<close> on.\<close>

fun delivered :: "(json \<times> attempt) list \<Rightarrow> string list" where
  "delivered [] = []"
| "delivered ((b, a) # xs) =
     (case outcome a of Delivered m \<Rightarrow> m # delivered xs | _ \<Rightarrow> delivered xs)"

definition notified_keys :: "builtins \<Rightarrow> (json \<times> attempt) list \<Rightarrow> (error + string) list" where
  "notified_keys B calls = map (\<lambda>c. boost_id B (fst c)) calls"

definition all_calls :: "cycle_report list \<Rightarrow> (json \<times> attempt) list" where
  "all_calls rs = concat (map attempts rs)"

definition raised :: "attempt \<Rightarrow> bool" where
  "raised a = (case outcome a of Raised e \<Rightarrow> True | _ \<Rightarrow> False)"

text \<open>
  A boost event as the feed documents it: an object whose \<open>chainId\<close> and \<open>tokenAddress\<close>
  are strings and whose \<open>amount\<close> and \<open>totalAmount\<close> are numbers.
\<close>

fun is_number :: "json \<Rightarrow> bool" where
  "is_number (JInt i) = True"
| "is_number (JFloat f) = True"
| "is_number _ = False"

definition well_formed_boost :: "json \<Rightarrow> bool" where
  "well_formed_boost b =
     (case b of
        JObj kvs \<Rightarrow>
          (case (map_of kvs ''chainId'', map_of kvs ''tokenAddress'',
                 map_of kvs ''amount'', map_of kvs ''totalAmount'') of
             (Some (JStr c), Some (JStr t), Some a, Some tot) \<Rightarrow> is_number a \<and> is_number tot
           | _ \<Rightarrow> False)
      | _ \<Rightarrow> False)"

section \<open>Concrete events and worlds\<close>

text \<open>
  An instance of the built-ins for the examples: on strings of ASCII characters its
  \<open>str_lower\<close> and \<open>str_title\<close> are those of Python.
\<close>

definition is_upper :: "char \<Rightarrow> bool" where
  "is_upper c = (65 \<le> (of_char c :: nat) \<and> (of_char c :: nat) \<le> 90)"

definition is_lower :: "char \<Rightarrow> bool" where
  "is_lower c = (97 \<le> (of_char c :: nat) \<and> (of_char c :: nat) \<le> 122)"

definition lower_char :: "char \<Rightarrow> char" where
  "lower_char c = (if is_upper c then char_of ((of_char c :: nat) + 32) else c)"

definition upper_char :: "char \<Rightarrow> char" where
  "upper_char c = (if is_lower c then char_of ((of_char c :: nat) - 32) else c)"

definition ascii_lower :: "string \<Rightarrow> string" where
  "ascii_lower s = map lower_char s"

fun title_from :: "bool \<Rightarrow> string \<Rightarrow> string" where
  "title_from prev [] = []"
| "title_from prev (c # cs) =
     (if is_upper c \<or> is_lower c
      then (if prev then lower_char c else upper_char c) # title_from True cs
      else c # title_from False cs)"

definition ascii_title :: "string \<Rightarrow> string" where
  "ascii_title s = title_from False s"

definition example_builtins :: builtins where
  "example_builtins =
     \<lparr>py_repr = (\<lambda>v. ''None''),
      float_of_str = (\<lambda>s. if s = ''0'' then Some (Finite 0) else None),
      str_lower = ascii_lower, str_title = ascii_title\<rparr>"

definition fresh_state :: bot_state where
  "fresh_state = \<lparr>known_boosts = {}, last_check_time = 0\<rparr>"

definition boost_of :: "string \<Rightarrow> string \<Rightarrow> json" where
  "boost_of chain addr =
     JObj [(''chainId'', JStr chain), (''tokenAddress'', JStr addr),
           (''amount'', JInt 100), (''totalAmount'', JInt 500)]"


text \<open>An event without a token address: its key cannot be computed.\<close>

definition keyless_boost :: json where
  "keyless_boost = JObj [(''chainId'', JStr ''solana''), (''amount'', JInt 100)]"

text \<open>A metrics response whose first pair carries \<^verbatim>\<open>"marketCap": null\<close>.\<close>

definition null_cap_body :: json where
  "null_cap_body =
     JObj [(''pairs'',
       JArr [JObj [(''baseToken'', JObj [(''name'', JStr ''T''), (''symbol'', JStr ''TK'')]),
                   (''marketCap'', JNull)]])]"

text \<open>A metrics response with one complete pair and empty link collections.\<close>

definition no_links_body :: json where
  "no_links_body =
     JObj [(''pairs'',
       JArr [JObj [(''baseToken'', JObj [(''name'', JStr ''T''), (''symbol'', JStr ''TK'')]),
                   (''marketCap'', JInt 1500), (''priceUsd'', JStr ''0''),
                   (''info'', JObj [(''websites'', JArr []), (''socials'', JArr [])])],
             JObj [(''baseToken'', JObj [(''name'', JStr ''U''), (''symbol'', JStr ''UK'')])]])]"

text \<open>
  A feed of three events; the metrics endpoint answers with the null market cap for the
  first two and times out for the third.
\<close>

definition three_boosts_world :: world where
  "three_boosts_world =
     \<lparr>feed = Body (JArr [boost_of ''solana'' ''AAA'', boost_of ''solana'' ''BBB'',
                          boost_of ''solana'' ''CCC'']),
      metrics = (\<lambda>b. if b = boost_of ''solana'' ''CCC'' then Failed Timeout
                      else Body null_cap_body),
      delivery = (\<lambda>b. None),
      now = 7\<rparr>"

definition two_boosts_world :: world where
  "two_boosts_world =
     \<lparr>feed = Body (JArr [boost_of ''solana'' ''AAA'', boost_of ''solana'' ''CCC'']),
      metrics = (\<lambda>b. if b = boost_of ''solana'' ''CCC'' then Failed Timeout
                      else Body null_cap_body),
      delivery = (\<lambda>b. None),
      now = 7\<rparr>"

text \<open>A feed whose metrics endpoint times out for the first event and whose sending fails for it.\<close>

definition flaky_world :: world where
  "flaky_world =
     \<lparr>feed = Body (JArr [boost_of ''solana'' ''AAA'', boost_of ''solana'' ''CCC'']),
      metrics = (\<lambda>b. Failed Timeout),
      delivery = (\<lambda>b. if b = boost_of ''solana'' ''AAA'' then Some TelegramError else None),
      now = 7\<rparr>"

definition timeout_world :: world where
  "timeout_world =
     \<lparr>feed = Failed Timeout, metrics = (\<lambda>b. Failed Timeout), delivery = (\<lambda>b. None), now = 7\<rparr>"

text \<open>Two events with different chain and address whose keys coincide.\<close>

definition colliding_world :: world where
  "colliding_world =
     \<lparr>feed = Body (JArr [boost_of ''a'' ''b_c'', boost_of ''a_b'' ''c'']),
      metrics = (\<lambda>b. Failed Timeout), delivery = (\<lambda>b. None), now = 7\<rparr>"

definition seen_state :: bot_state where
  "seen_state = \<lparr>known_boosts = {''solana_AAA''}, last_check_time = 0\<rparr>"

text \<open>The token information that \<open>get_token_info\<close> builds from \<open>no_links_body\<close>.\<close>

definition no_links_info :: token_info where
  "no_links_info =
     \<lparr>name = JStr ''T'', symbol = JStr ''TK'', market_cap = JInt 1500, fdv = JInt 0,
      price_usd = JStr ''0'', liquidity_usd = JInt 0,
      info = JObj [(''websites'', JArr []), (''socials'', JArr [])]\<rparr>"


text \<open>A metrics response whose only pair has no \<open>info\<close> entry, and the token information built from it.\<close>

definition no_info_body :: json where
  "no_info_body =
     JObj [(''pairs'',
       JArr [JObj [(''baseToken'', JObj [(''name'', JStr ''T''), (''symbol'', JStr ''TK'')]),
                   (''marketCap'', JInt 1500), (''priceUsd'', JStr ''0'')]])]"

definition no_info_info :: token_info where
  "no_info_info =
     \<lparr>name = JStr ''T'', symbol = JStr ''TK'', market_cap = JInt 1500, fdv = JInt 0,
      price_usd = JStr ''0'', liquidity_usd = JInt 0, info = JObj []\<rparr>"
section \<open>Rounding\<close>

lemma floor_num_div: "\<lfloor>(numeral a :: rat) / numeral b\<rfloor> = numeral a div numeral b"
  using floor_divide_of_int_eq [of "numeral a" "numeral b", where ?'a = rat] by simp

lemma round_half_even_near:
  assumes "\<bar>x - of_int n\<bar> < 1 / 2"
  shows "round_half_even x = n"
proof -
  consider "of_int n \<le> x" | "x < of_int n" by linarith
  then show ?thesis
  proof cases
    case 1
    then have "\<lfloor>x\<rfloor> = n" using assms by (intro floor_unique) linarith+
    then show ?thesis using assms 1 by (simp add: round_half_even_def Let_def)
  next
    case 2
    then have f: "\<lfloor>x\<rfloor> = n - 1" using assms by (intro floor_unique) (simp, linarith)+
    have "1 / 2 < x - of_int (n - 1)" using assms 2 by simp
    then show ?thesis using f by (simp add: round_half_even_def Let_def)
  qed
qed

lemma round_half_even_of_int [simp]: "round_half_even (of_int k) = k"
  by (rule round_half_even_near) simp

lemma round_half_even_numeral [simp]: "round_half_even (numeral k) = numeral k"
  by (rule round_half_even_near) simp

lemma round_half_even_bounds:
  "of_int (round_half_even y) \<le> y + 1 / 2" "y - 1 / 2 \<le> of_int (round_half_even y)"
proof -
  define n where "n = \<lfloor>y\<rfloor>"
  have f: "of_int n \<le> y" "y < of_int n + 1" unfolding n_def by linarith+
  consider "y - of_int n < 1 / 2" | "1 / 2 < y - of_int n" | "y - of_int n = 1 / 2"
    by linarith
  then have "of_int (round_half_even y) \<le> y + 1 / 2 \<and> y - 1 / 2 \<le> of_int (round_half_even y)"
  proof cases
    case 1
    then have "round_half_even y = n" by (simp add: round_half_even_def Let_def n_def)
    with f 1 show ?thesis by simp
  next
    case 2
    then have "round_half_even y = n + 1" by (simp add: round_half_even_def Let_def n_def)
    with f 2 show ?thesis by simp
  next
    case 3
    then have "round_half_even y = n \<or> round_half_even y = n + 1"
      by (simp add: round_half_even_def Let_def n_def)
    with f 3 show ?thesis by auto
  qed
  then show "of_int (round_half_even y) \<le> y + 1 / 2" "y - 1 / 2 \<le> of_int (round_half_even y)"
    by simp_all
qed

lemma pow2_powi: "pow2 s = 2 powi s"
proof (cases "0 \<le> s")
  case True
  then show ?thesis by (simp only: pow2_def power_int_def if_True)
next
  case False
  have "(1::rat) / 2 ^ nat (- s) = inverse 2 ^ nat (- s)"
    by (simp only: inverse_eq_divide power_one_over)
  with False show ?thesis by (simp only: pow2_def power_int_def if_False)
qed

lemma pow2_pos: "0 < pow2 s"
  by (simp add: pow2_powi)

lemma pow2_inverse: "pow2 s * pow2 (- s) = 1"
  by (simp add: pow2_powi power_int_minus)

lemma pow2_mono: "s \<le> t \<Longrightarrow> pow2 s \<le> pow2 t"
  by (simp add: pow2_powi power_int_increasing)

lemma bitlen_lower: "0 < n \<Longrightarrow> 2 ^ (bitlen n - 1) \<le> n"
proof (induction n rule: bitlen.induct)
  case (1 n)
  show ?case
  proof (cases "n div 2 = 0")
    case True
    with 1(2) have "bitlen n = 1" by (simp add: bitlen.simps [of n] bitlen.simps [of 0])
    with 1(2) show ?thesis by simp
  next
    case False
    with 1 have ih: "2 ^ (bitlen (n div 2) - 1) \<le> n div 2" by simp
    from False have "0 < bitlen (n div 2)" by (simp add: bitlen.simps [of "n div 2"])
    then have "bitlen (n div 2) = Suc (bitlen (n div 2) - 1)" by simp
    then have "(2::nat) ^ bitlen (n div 2) = 2 * 2 ^ (bitlen (n div 2) - 1)"
      by (metis power_Suc)
    also have "\<dots> \<le> 2 * (n div 2)" using ih by simp
    also have "\<dots> \<le> n" by simp
    finally have "(2::nat) ^ bitlen (n div 2) \<le> n" .
    moreover from 1(2) have "bitlen n - 1 = bitlen (n div 2)" by (simp add: bitlen.simps [of n])
    ultimately show ?thesis by simp
  qed
qed

lemma ilog2_lower: "1 \<le> a \<Longrightarrow> 0 \<le> ilog2 a \<and> pow2 (ilog2 a) \<le> a"
proof -
  assume a: "1 \<le> a"
  define n where "n = nat \<lfloor>a\<rfloor>"
  from a have f: "1 \<le> \<lfloor>a\<rfloor>" by linarith
  then have n: "0 < n" "of_nat n \<le> a"
    unfolding n_def by (simp, metis of_int_floor_le of_int_of_nat_eq of_nat_nat order_trans zero_le_one)
  from n(1) have b: "0 < bitlen n" by (simp add: bitlen.simps [of n])
  then have e: "ilog2 a = int (bitlen n - 1)" using a by (simp add: ilog2_def n_def)
  have "pow2 (ilog2 a) = of_nat (2 ^ (bitlen n - 1))" by (simp add: e pow2_def)
  also have "\<dots> \<le> of_nat n" using bitlen_lower [OF n(1)] by (simp only: of_nat_le_iff)
  finally show ?thesis using n(2) e by simp
qed

lemma ilog2_small: "0 < a \<Longrightarrow> a < 1 \<Longrightarrow> ilog2 a \<le> 0"
  by (simp add: ilog2_def)

text \<open>The rounding error is at most the weight of half a unit in the last place.\<close>

lemma round64_error:
  assumes "x \<noteq> 0"
  shows "\<bar>\<bar>round64 x\<bar> - \<bar>x\<bar>\<bar> \<le> pow2 (max (ilog2 \<bar>x\<bar>) (- 1022) - 53)"
proof -
  define a where "a = \<bar>x\<bar>"
  define e where "e = max (ilog2 a) (- 1022)"
  define s where "s = 52 - e"
  define m where "m = round_half_even (a * pow2 s)"
  have r: "round64 x = sgn x * of_int m * pow2 (- s)"
    using assms by (simp add: round64_def Let_def a_def e_def s_def m_def)
  have m0: "0 \<le> m"
  proof -
    have "0 \<le> a * pow2 s" using pow2_pos [of s] by (simp add: a_def)
    with round_half_even_bounds(2) [of "a * pow2 s"] have "- 1 / 2 \<le> (of_int m :: rat)"
      by (simp add: m_def)
    then have "(- 1 :: rat) < of_int m" by linarith
    then show ?thesis by linarith
  qed
  have "\<bar>round64 x\<bar> = of_int m * pow2 (- s)"
    using assms m0 pow2_pos [of "- s"] by (simp add: r abs_mult abs_sgn_eq)
  moreover have "a = (a * pow2 s) * pow2 (- s)"
    using pow2_inverse [of s] by (simp add: mult.assoc)
  ultimately have "\<bar>round64 x\<bar> - a = (of_int m - a * pow2 s) * pow2 (- s)"
    by (simp add: algebra_simps)
  then have "\<bar>\<bar>round64 x\<bar> - a\<bar> = \<bar>of_int m - a * pow2 s\<bar> * pow2 (- s)"
    using pow2_pos [of "- s"] by (simp add: abs_mult)
  also have "\<dots> \<le> (1 / 2) * pow2 (- s)"
  proof -
    have "\<bar>of_int m - a * pow2 s\<bar> \<le> 1 / 2"
      using round_half_even_bounds [of "a * pow2 s"] unfolding m_def by linarith
    then show ?thesis using pow2_pos [of "- s"] by (intro mult_right_mono) simp_all
  qed
  also have "\<dots> = pow2 (e - 53)"
    by (simp add: pow2_powi s_def power_int_diff)
  finally show ?thesis by (simp add: a_def e_def)
qed

lemma round64_zero [simp]: "round64 0 = 0"
  by (simp add: round64_def)

lemma float_range_bound:
  assumes "\<bar>x\<bar> < 2 ^ 1023"
  shows "float_range x"
proof (cases "x = 0")
  case True
  then show ?thesis by (simp add: float_range_def)
next
  case False
  define e where "e = max (ilog2 \<bar>x\<bar>) (- 1022)"
  from round64_error [OF False] have b: "\<bar>round64 x\<bar> \<le> \<bar>x\<bar> + pow2 (e - 53)"
    unfolding e_def by linarith
  have "pow2 (e - 53) \<le> max 1 \<bar>x\<bar>"
  proof (cases "1 \<le> \<bar>x\<bar>")
    case True
    from ilog2_lower [OF True] have "e = ilog2 \<bar>x\<bar>" "pow2 (ilog2 \<bar>x\<bar>) \<le> \<bar>x\<bar>"
      by (simp_all add: e_def)
    moreover have "pow2 (e - 53) \<le> pow2 e" by (rule pow2_mono) simp
    ultimately show ?thesis by simp
  next
    case c: False
    with False have "ilog2 \<bar>x\<bar> \<le> 0" by (intro ilog2_small) simp_all
    then have "e - 53 \<le> 0" by (simp add: e_def)
    from pow2_mono [OF this] show ?thesis by (simp add: pow2_def)
  qed
  with b have "\<bar>round64 x\<bar> \<le> \<bar>x\<bar> + max 1 \<bar>x\<bar>" by linarith
  also have "\<dots> < 2 ^ 1024" using assms by (simp add: max_def)
  finally show ?thesis by (simp add: float_range_def)
qed

lemma not_float_range:
  assumes "2 ^ 1025 \<le> \<bar>x\<bar>"
  shows "\<not> float_range x"
proof -
  have x1: "1 \<le> \<bar>x\<bar>"
  proof -
    have "(1::rat) \<le> 2 ^ 1025" by simp
    with assms show ?thesis by linarith
  qed
  then have x0: "x \<noteq> 0" by auto
  define e where "e = max (ilog2 \<bar>x\<bar>) (- 1022)"
  from ilog2_lower [OF x1] have e: "e = ilog2 \<bar>x\<bar>" "pow2 e \<le> \<bar>x\<bar>"
    by (simp_all add: e_def)
  have "pow2 (e - 53) \<le> pow2 (e - 1)" by (rule pow2_mono) simp
  also have "\<dots> = pow2 e / 2" by (simp add: pow2_powi power_int_diff)
  finally have "pow2 (e - 53) \<le> \<bar>x\<bar> / 2" using e(2) by simp
  with round64_error [OF x0] have "\<bar>x\<bar> / 2 \<le> \<bar>round64 x\<bar>"
    unfolding e_def by linarith
  with assms have "2 ^ 1025 / 2 \<le> \<bar>round64 x\<bar>" by simp
  then show ?thesis by (simp add: float_range_def)
qed

lemma bitlen_upper: "n < 2 ^ k \<Longrightarrow> bitlen n \<le> k"
proof (cases "n = 0")
  case True
  then show ?thesis by (simp add: bitlen.simps [of 0])
next
  case False
  assume a: "n < 2 ^ k"
  from False bitlen_lower [of n] have "2 ^ (bitlen n - 1) \<le> n" by simp
  with a have "(2::nat) ^ (bitlen n - 1) < 2 ^ k" by linarith
  then have "bitlen n - 1 < k" using power_less_imp_less_exp [of 2 "bitlen n - 1" k] by simp
  then show ?thesis by simp
qed

text \<open>An int of magnitude below \<open>2\<^sup>5\<^sup>3\<close> is a float.\<close>

lemma round64_int_exact:
  assumes "\<bar>i\<bar> < 2 ^ 53"
  shows "round64 (of_int i) = of_int i"
proof (cases "i = 0")
  case True
  then show ?thesis by simp
next
  case False
  define n where "n = nat \<bar>i\<bar>"
  have a: "\<bar>of_int i :: rat\<bar> = of_nat n" by (simp add: n_def)
  from False have n0: "0 < n" by (simp add: n_def)
  from assms have "n < 2 ^ 53" by (simp add: n_def nat_less_iff)
  from bitlen_upper [OF this] have bu: "bitlen n \<le> 53" .
  from n0 have bl: "0 < bitlen n" by (simp add: bitlen.simps [of n])
  have il: "ilog2 (of_nat n) = int (bitlen n) - 1" using n0 by (simp add: ilog2_def)
  define s where "s = 53 - bitlen n"
  have e: "max (ilog2 (of_nat n)) (- 1022) = int (bitlen n) - 1" using bl by (simp add: il)
  have s: "52 - (int (bitlen n) - 1) = int s" using bu by (simp add: s_def)
  have p: "pow2 (int s) = of_nat (2 ^ s)" by (simp add: pow2_def)
  have m: "round_half_even (of_nat n * pow2 (int s)) = int (n * 2 ^ s)"
  proof -
    have "(of_nat n * pow2 (int s) :: rat) = of_int (int (n * 2 ^ s))" by (simp add: p)
    then show ?thesis by (simp only: round_half_even_of_int)
  qed
  have "round64 (of_int i) = sgn (of_int i) * of_int (int (n * 2 ^ s)) * pow2 (- int s)"
    using False by (simp only: round64_def Let_def a e s m) simp
  also have "\<dots> = sgn (of_int i) * of_nat n * (pow2 (int s) * pow2 (- int s))"
    by (simp add: p)
  also have "\<dots> = sgn (of_int i) * \<bar>of_int i\<bar>" by (simp only: pow2_inverse a mult_1_right)
  also have "\<dots> = of_int i" by (simp add: sgn_mult_abs)
  finally show ?thesis .
qed

section \<open>Number formatting\<close>

lemma float_of_int_small: "\<bar>i\<bar> < 2 ^ 53 \<Longrightarrow> float_of_int i = Inr (of_int i)"
proof -
  assume a: "\<bar>i\<bar> < 2 ^ 53"
  then have "\<bar>of_int i :: rat\<bar> < 2 ^ 53" by (metis of_int_abs of_int_less_numeral_power_cancel_iff)
  moreover have "(2::rat) ^ 53 < 2 ^ 1023" by simp
  ultimately have "\<bar>of_int i :: rat\<bar> < 2 ^ 1023" by linarith
  from float_range_bound [OF this] round64_int_exact [OF a] show ?thesis
    by (simp add: float_of_int_def)
qed

lemma int_true_div_pos:
  "0 < b \<Longrightarrow> 0 \<le> a \<Longrightarrow>
   int_true_div a b =
     (if float_range (of_int a / of_int b) then Inr (Finite (round64 (of_int a / of_int b)))
      else Inl OverflowError)"
  by (simp add: int_true_div_def Let_def)

lemma float_over_pos:
  "0 < d \<Longrightarrow> 0 \<le> r \<Longrightarrow> float_range (r / d) \<Longrightarrow>
   float_over (Finite r) d = Inr (Finite (round64 (r / d)))"
  by (simp add: float_over_def Let_def)

lemma float_range_small: "\<bar>x\<bar> < 1000 \<Longrightarrow> float_range x"
proof -
  assume "\<bar>x\<bar> < 1000"
  moreover have "(1000::rat) < 2 ^ 1023" by simp
  ultimately have "\<bar>x\<bar> < 2 ^ 1023" by linarith
  then show ?thesis by (rule float_range_bound)
qed

lemma round64_examples:
  "round64 (3 / 2) = 3 / 2" "round64 (5 / 2) = 5 / 2"
  "round64 (16 / 5) = 3602879701896397 / 1125899906842624"
proof -
  have l: "ilog2 (3 / 2) = 0" "ilog2 (5 / 2) = 1" "ilog2 (16 / 5) = 1"
    by (simp_all add: ilog2_def bitlen.simps floor_num_div)
  have p: "pow2 52 = 4503599627370496" "pow2 (- 52) = 1 / 4503599627370496"
    "pow2 51 = 2251799813685248" "pow2 (- 51) = 1 / 2251799813685248"
    by (simp_all add: pow2_def)
  have r: "round_half_even (36028797018963968 / 5) = 7205759403792794"
    by (rule round_half_even_near) simp
  show "round64 (3 / 2) = 3 / 2" unfolding round64_def Let_def by (simp add: l p)
  show "round64 (5 / 2) = 5 / 2" unfolding round64_def Let_def by (simp add: l p)
  show "round64 (16 / 5) = 3602879701896397 / 1125899906842624"
    unfolding round64_def Let_def by (simp add: l p r)
qed

lemma fmt_examples:
  "fmt_fixed 2 999 = ''999.00''" "fmt_fixed 2 (3 / 2) = ''1.50''" "fmt_fixed 2 (5 / 2) = ''2.50''"
  "fmt_fixed 2 100 = ''100.00''" "fmt_fixed 2 500 = ''500.00''" "fmt_fixed 2 2 = ''2.00''"
  "fmt_fixed 2 5 = ''5.00''"
  by (simp_all add: fmt_fixed_def digits.simps digit_char_def)

lemma fmt_3_2B: "fmt_fixed 2 (3602879701896397 / 1125899906842624) = ''3.20''"
proof -
  have "round_half_even (\<bar>3602879701896397 / 1125899906842624\<bar> * 10 ^ 2) = 320"
    by (rule round_half_even_near) simp
  then show ?thesis unfolding fmt_fixed_def Let_def by (simp add: digits.simps digit_char_def)
qed

lemma fmt_zero: "fmt_fixed 2 0 = ''0.00''" "fmt_fixed 8 0 = ''0.00000000''"
proof -
  have d: "digits 0 = ''0''" by (simp add: digits.simps digit_char_def)
  have r: "replicate 7 (CHR ''0'') = ''0000000''" by (simp add: numeral_eq_Suc)
  have z: "round_half_even 0 = 0" by (simp add: round_half_even_def)
  show "fmt_fixed 2 0 = ''0.00''" by (simp add: fmt_fixed_def z d)
  show "fmt_fixed 8 0 = ''0.00000000''" by (simp add: fmt_fixed_def z d r)
qed

lemma format_number_int:
  "1000000000 \<le> i \<Longrightarrow> format_number (JInt i) =
     (if float_range (of_int i / 1000000000)
      then Inr (''$'' @ fmt_fixed 2 (round64 (of_int i / 1000000000)) @ ''B'')
      else Inl OverflowError)"
  "1000000 \<le> i \<Longrightarrow> i < 1000000000 \<Longrightarrow> format_number (JInt i) =
     Inr (''$'' @ fmt_fixed 2 (round64 (of_int i / 1000000)) @ ''M'')"
  "1000 \<le> i \<Longrightarrow> i < 1000000 \<Longrightarrow> format_number (JInt i) =
     Inr (''$'' @ fmt_fixed 2 (round64 (of_int i / 1000)) @ ''K'')"
  "i < 1000 \<Longrightarrow> format_number (JInt i) =
     (if float_range (of_int i) then Inr (''$'' @ fmt_fixed 2 (round64 (of_int i)))
      else Inl OverflowError)"
proof -
  show "format_number (JInt i) =
     (if float_range (of_int i / 1000000000)
      then Inr (''$'' @ fmt_fixed 2 (round64 (of_int i / 1000000000)) @ ''B'')
      else Inl OverflowError)" if "1000000000 \<le> i"
    using that int_true_div_pos [of 1000000000 i] by (simp add: format_number_def bindE_def)
  show "format_number (JInt i) =
     Inr (''$'' @ fmt_fixed 2 (round64 (of_int i / 1000000)) @ ''M'')"
    if h: "1000000 \<le> i" "i < 1000000000"
  proof -
    have "\<bar>of_int i / 1000000 :: rat\<bar> < 1000" using h by simp
    from float_range_small [OF this] h int_true_div_pos [of 1000000 i] show ?thesis
      by (simp add: format_number_def bindE_def)
  qed
  show "format_number (JInt i) =
     Inr (''$'' @ fmt_fixed 2 (round64 (of_int i / 1000)) @ ''K'')"
    if h: "1000 \<le> i" "i < 1000000"
  proof -
    have "\<bar>of_int i / 1000 :: rat\<bar> < 1000" using h by simp
    from float_range_small [OF this] h int_true_div_pos [of 1000 i] show ?thesis
      by (simp add: format_number_def bindE_def)
  qed
  show "format_number (JInt i) =
     (if float_range (of_int i) then Inr (''$'' @ fmt_fixed 2 (round64 (of_int i)))
      else Inl OverflowError)" if "i < 1000"
    using that by (simp add: format_number_def bindE_def float_of_int_def)
qed

lemma float_of_int_consts:
  "float_of_int 1000000000 = Inr 1000000000" "float_of_int 1000000 = Inr 1000000"
  "float_of_int 1000 = Inr 1000"
  using float_of_int_small [of 1000000000] float_of_int_small [of 1000000]
    float_of_int_small [of 1000] by simp_all

lemma format_number_float:
  "1000000000 \<le> r \<Longrightarrow> float_range (r / 1000000000) \<Longrightarrow>
     format_number (JFloat (Finite r)) =
       Inr (''$'' @ fmt_fixed 2 (round64 (r / 1000000000)) @ ''B'')"
  "1000000 \<le> r \<Longrightarrow> r < 1000000000 \<Longrightarrow>
     format_number (JFloat (Finite r)) = Inr (''$'' @ fmt_fixed 2 (round64 (r / 1000000)) @ ''M'')"
  "1000 \<le> r \<Longrightarrow> r < 1000000 \<Longrightarrow>
     format_number (JFloat (Finite r)) = Inr (''$'' @ fmt_fixed 2 (round64 (r / 1000)) @ ''K'')"
  "r < 1000 \<Longrightarrow> format_number (JFloat (Finite r)) = Inr (''$'' @ fmt_fixed 2 r)"
proof -
  show "format_number (JFloat (Finite r)) =
       Inr (''$'' @ fmt_fixed 2 (round64 (r / 1000000000)) @ ''B'')"
    if h: "1000000000 \<le> r" "float_range (r / 1000000000)"
    using h float_over_pos [of 1000000000 r]
    by (simp add: format_number_def bindE_def float_of_int_consts)
  show "format_number (JFloat (Finite r)) = Inr (''$'' @ fmt_fixed 2 (round64 (r / 1000000)) @ ''M'')"
    if h: "1000000 \<le> r" "r < 1000000000"
  proof -
    have "\<bar>r / 1000000\<bar> < 1000" using h by simp
    from float_range_small [OF this] h float_over_pos [of 1000000 r] show ?thesis
      by (simp add: format_number_def bindE_def float_of_int_consts)
  qed
  show "format_number (JFloat (Finite r)) = Inr (''$'' @ fmt_fixed 2 (round64 (r / 1000)) @ ''K'')"
    if h: "1000 \<le> r" "r < 1000000"
  proof -
    have "\<bar>r / 1000\<bar> < 1000" using h by simp
    from float_range_small [OF this] h float_over_pos [of 1000 r] show ?thesis
      by (simp add: format_number_def bindE_def float_of_int_consts)
  qed
  show "format_number (JFloat (Finite r)) = Inr (''$'' @ fmt_fixed 2 r)" if "r < 1000"
    using that by (simp add: format_number_def bindE_def)
qed

lemma format_number_examples:
  "format_number (JInt 999) = Inr ''$999.00''" "format_number (JInt 1500) = Inr ''$1.50K''"
  "format_number (JInt 2500000) = Inr ''$2.50M''"
  "format_number (JInt 3200000000) = Inr ''$3.20B''"
  "format_number (JInt 0) = Inr ''$0.00''" "format_number (JInt 100) = Inr ''$100.00''"
  "format_number (JInt 500) = Inr ''$500.00''"
proof -
  have s: "round64 999 = 999" "round64 0 = 0" "round64 100 = 100" "round64 500 = 500"
    using round64_int_exact [of 999] round64_int_exact [of 100] round64_int_exact [of 500]
    by simp_all
  have f: "float_range 999" "float_range 0" "float_range 100" "float_range 500"
    "float_range (16 / 5)"
    by (simp_all add: float_range_small)
  show "format_number (JInt 999) = Inr ''$999.00''"
    using format_number_int(4) [of 999] by (simp add: s f fmt_examples)
  show "format_number (JInt 0) = Inr ''$0.00''"
    using format_number_int(4) [of 0] by (simp add: s f fmt_zero)
  show "format_number (JInt 100) = Inr ''$100.00''"
    using format_number_int(4) [of 100] by (simp add: s f fmt_examples)
  show "format_number (JInt 500) = Inr ''$500.00''"
    using format_number_int(4) [of 500] by (simp add: s f fmt_examples)
  show "format_number (JInt 1500) = Inr ''$1.50K''"
    using format_number_int(3) [of 1500] by (simp add: round64_examples fmt_examples)
  show "format_number (JInt 2500000) = Inr ''$2.50M''"
    using format_number_int(2) [of 2500000] by (simp add: round64_examples fmt_examples)
  show "format_number (JInt 3200000000) = Inr ''$3.20B''"
    using format_number_int(1) [of 3200000000] by (simp add: round64_examples f fmt_3_2B)
qed

lemma float_range_quotient:
  assumes "\<bar>r\<bar> < 2 ^ 1024" "1000 \<le> d"
  shows "float_range (r / d)"
proof -
  have "\<bar>r / d\<bar> = \<bar>r\<bar> / d" using assms(2) by simp
  also have "\<dots> \<le> \<bar>r\<bar> / 1000" using assms(2) by (intro divide_left_mono) simp_all
  also have "\<dots> < 2 ^ 1024 / 1000" using assms(1) by (simp add: divide_strict_right_mono)
  also have "\<dots> < 2 ^ 1023" by simp
  finally show ?thesis by (rule float_range_bound)
qed

lemma format_number_nonfinite:
  "format_number (JFloat PosInf) = Inr ''$infB''" "format_number (JFloat NegInf) = Inr ''$-inf''"
  "format_number (JFloat NaN) = Inr ''$nan''" "format_number (JFloat NegZero) = Inr ''$-0.00''"
  by (simp_all add: format_number_def bindE_def float_of_int_consts float_over_def fmt_zero)

lemma format_number_not_number:
  "format_number JNull = Inl TypeError" "format_number (JStr s) = Inl TypeError"
  "format_number (JArr xs) = Inl TypeError" "format_number (JObj kvs) = Inl TypeError"
  by (simp_all add: format_number_def)

lemma huge_not_float: "\<not> float_range (10 ^ 320 / 1000000000)"
proof -
  have "(2::rat) ^ 1025 \<le> \<bar>10 ^ 320 / 1000000000\<bar>" by simp
  then show ?thesis by (rule not_float_range)
qed

lemma format_number_huge: "format_number (JInt (10 ^ 320)) = Inl OverflowError"
proof -
  have "(1000000000::int) \<le> 10 ^ 320" by simp
  from format_number_int(1) [OF this] huge_not_float show ?thesis by simp
qed

lemma digit_char_in: "d < 10 \<Longrightarrow> digit_char d \<in> set ''0123456789''"
  unfolding digit_char_def by (rule nth_mem) simp

lemma digits_set: "set (digits n) \<subseteq> set ''0123456789''"
proof (induction n rule: digits.induct)
  case (1 n)
  show ?case
  proof (cases "n < 10")
    case True
    then show ?thesis using digit_char_in [of n] by (subst digits.simps) simp
  next
    case False
    have "n mod 10 < 10" by simp
    from digit_char_in [OF this] 1 [OF False] False show ?thesis
      by (subst digits.simps) simp
  qed
qed


lemma digits_length: "n < 100 \<Longrightarrow> length (digits n) \<le> 2"
proof -
  assume a: "n < 100"
  show ?thesis
  proof (cases "n < 10")
    case True
    then show ?thesis by (subst digits.simps) simp
  next
    case False
    from a have "n div 10 < 10" by simp
    then have "digits (n div 10) = [digit_char (n div 10)]" by (subst digits.simps) simp
    with False show ?thesis by (subst digits.simps) simp
  qed
qed

lemma digits_nonempty: "digits n \<noteq> []"
  by (subst digits.simps) simp

lemma fmt_fixed_two_decimals:
  "\<exists>ip fp. fmt_fixed 2 x = (if x < 0 then ''-'' else []) @ ip @ ''.'' @ fp
     \<and> ip \<noteq> [] \<and> length fp = 2 \<and> set (ip @ fp) \<subseteq> set ''0123456789''"
proof -
  define s where "s = nat (round_half_even (\<bar>x\<bar> * 10 ^ 2))"
  define ip where "ip = digits (s div 10 ^ 2)"
  define d where "d = digits (s mod 10 ^ 2)"
  define fp where "fp = replicate (2 - length d) (CHR ''0'') @ d"
  have "s mod 10 ^ 2 < 100" by simp
  from digits_length [OF this] have "length d \<le> 2" by (simp add: d_def)
  then have l: "length fp = 2" by (simp add: fp_def)
  have e: "fmt_fixed 2 x = (if x < 0 then ''-'' else []) @ ip @ ''.'' @ fp"
    by (simp add: fmt_fixed_def Let_def s_def ip_def d_def fp_def)
  have "set ip \<subseteq> set ''0123456789''" "set d \<subseteq> set ''0123456789''"
    using digits_set by (simp_all only: ip_def d_def)
  moreover have "CHR ''0'' \<in> set ''0123456789''" by simp
  ultimately have "set (ip @ fp) \<subseteq> set ''0123456789''"
    unfolding fp_def by (auto simp only: set_append set_replicate_conv_if split: if_splits)
  with e l digits_nonempty [of "s div 10 ^ 2"] show ?thesis
    unfolding ip_def by blast
qed


text \<open>
  C6. On an out-of-range int the formatter does not return a string, and a non-finite
  float is rendered without decimals: \<open>10\<^sup>3\<^sup>2\<^sup>0\<close>, which is at least \<open>10\<^sup>9\<close>, raises
  OverflowError in the division; infinity gives \<open>$infB\<close>; NaN, which no comparison
  accepts, gives \<open>$nan\<close>.
\<close>

theorem format_number_out_of_range:
  "(1000000000 :: int) \<le> 10 ^ 320
   \<and> format_number (JInt (10 ^ 320)) = Inl OverflowError
   \<and> format_number (JFloat PosInf) = Inr ''$infB''
   \<and> format_number (JFloat NaN) = Inr ''$nan''"
proof -
  have "(1000000000 :: int) \<le> 10 ^ 320" by simp
  then show ?thesis by (simp only: format_number_huge format_number_nonfinite simp_thms)
qed

text \<open>
  C6, as amended. For a number within the range of a float the formatter goes by the
  thresholds: from \<open>10\<^sup>9\<close> on, the number divided by \<open>10\<^sup>9\<close> with two decimals and the suffix
  \<open>B\<close>; from \<open>10\<^sup>6\<close> on, likewise with \<open>M\<close>; from \<open>10\<^sup>3\<close> on, with \<open>K\<close>; below, the amount itself
  with two decimals. The quotient is the nearest float (\<open>round64\<close>), and the rendering
  rounds it to two decimals (\<open>fmt_fixed\<close>). An int is divided as an int and, below \<open>10\<^sup>3\<close>,
  converted to a float by the format: where the quotient or the int is beyond the range
  of a float the formatter raises OverflowError; every magnitude below \<open>2\<^sup>1\<^sup>0\<^sup>2\<^sup>3\<close> is within
  the range, none from \<open>2\<^sup>1\<^sup>0\<^sup>2\<^sup>5\<close> on is, and an int below \<open>2\<^sup>5\<^sup>3\<close> in magnitude is a float. A
  finite float has a magnitude below \<open>2\<^sup>1\<^sup>0\<^sup>2\<^sup>4\<close>. An infinite float is rendered as \<open>$infB\<close> or
  \<open>$-inf\<close>, NaN as \<open>$nan\<close>, the negative zero as \<open>$-0.00\<close>. In particular 999 gives
  \<open>$999.00\<close>, 1500 gives \<open>$1.50K\<close>, 2500000 gives \<open>$2.50M\<close> and 3200000000 gives \<open>$3.20B\<close>.
\<close>

theorem format_number_thresholds:
  "(1000000000 \<le> i \<longrightarrow>
      format_number (JInt i) =
        (if float_range (of_int i / 1000000000)
         then Inr (''$'' @ fmt_fixed 2 (round64 (of_int i / 1000000000)) @ ''B'')
         else Inl OverflowError))
   \<and> (1000000 \<le> i \<and> i < 1000000000 \<longrightarrow>
      format_number (JInt i) = Inr (''$'' @ fmt_fixed 2 (round64 (of_int i / 1000000)) @ ''M''))
   \<and> (1000 \<le> i \<and> i < 1000000 \<longrightarrow>
      format_number (JInt i) = Inr (''$'' @ fmt_fixed 2 (round64 (of_int i / 1000)) @ ''K''))
   \<and> (i < 1000 \<longrightarrow>
      format_number (JInt i) =
        (if float_range (of_int i) then Inr (''$'' @ fmt_fixed 2 (round64 (of_int i)))
         else Inl OverflowError))
   \<and> (\<bar>i\<bar> < 2 ^ 53 \<longrightarrow> round64 (of_int i) = of_int i)
   \<and> (\<bar>x\<bar> < 2 ^ 1023 \<longrightarrow> float_range x)
   \<and> (2 ^ 1025 \<le> \<bar>x\<bar> \<longrightarrow> \<not> float_range x)
   \<and> (\<bar>r\<bar> < 2 ^ 1024 \<and> 1000000000 \<le> r \<longrightarrow>
      format_number (JFloat (Finite r)) =
        Inr (''$'' @ fmt_fixed 2 (round64 (r / 1000000000)) @ ''B''))
   \<and> (1000000 \<le> r \<and> r < 1000000000 \<longrightarrow>
      format_number (JFloat (Finite r)) =
        Inr (''$'' @ fmt_fixed 2 (round64 (r / 1000000)) @ ''M''))
   \<and> (1000 \<le> r \<and> r < 1000000 \<longrightarrow>
      format_number (JFloat (Finite r)) = Inr (''$'' @ fmt_fixed 2 (round64 (r / 1000)) @ ''K''))
   \<and> (r < 1000 \<longrightarrow> format_number (JFloat (Finite r)) = Inr (''$'' @ fmt_fixed 2 r))
   \<and> format_number (JFloat PosInf) = Inr ''$infB''
   \<and> format_number (JFloat NegInf) = Inr ''$-inf''
   \<and> format_number (JFloat NaN) = Inr ''$nan''
   \<and> format_number (JFloat NegZero) = Inr ''$-0.00''
   \<and> format_number (JInt 999) = Inr ''$999.00''
   \<and> format_number (JInt 1500) = Inr ''$1.50K''
   \<and> format_number (JInt 2500000) = Inr ''$2.50M''
   \<and> format_number (JInt 3200000000) = Inr ''$3.20B''"
proof -
  have "format_number (JFloat (Finite r)) =
        Inr (''$'' @ fmt_fixed 2 (round64 (r / 1000000000)) @ ''B'')"
    if "\<bar>r\<bar> < 2 ^ 1024" "1000000000 \<le> r"
    using format_number_float(1) [OF that(2)] float_range_quotient [OF that(1), of 1000000000]
    by simp
  then show ?thesis
    using format_number_int [of i] format_number_float(2-4) [of r] round64_int_exact [of i]
      float_range_bound [of x] not_float_range [of x]
    by (simp only: format_number_nonfinite format_number_examples simp_thms) blast
qed

theorem format_number_thresholds_witness:
  "format_number (JInt 2500000) = Inr ''$2.50M''
   \<and> format_number (JFloat (Finite 1500)) = Inr ''$1.50K''
   \<and> float_range 1500"
  using format_number_thresholds [of 2500000 1500 1500]
  by (simp add: round64_examples fmt_examples)

section \<open>The deduplication loop\<close>

lemma for_boosts_mono:
  "for_boosts B w evs known = (err, known', calls) \<Longrightarrow> known \<subseteq> known'"
proof (induction evs arbitrary: known err known' calls)
  case Nil
  then show ?case by simp
next
  case (Cons b evs)
  then show ?case
    by (fastforce simp: Let_def split: sum.splits if_splits outcome.splits prod.splits)
qed

lemma for_boosts_calls:
  "for_boosts B w evs known = (err, known', calls) \<Longrightarrow> c \<in> set calls \<Longrightarrow>
     \<exists>k. boost_id B (fst c) = Inr k \<and> k \<notin> known \<and> k \<in> known'
         \<and> snd c = send_notification B w (fst c) \<and> fst c \<in> set evs"
proof (induction evs arbitrary: known err known' calls)
  case Nil
  then show ?case by simp
next
  case (Cons b evs)
  show ?case
  proof (cases "boost_id B b")
    case (Inl e)
    with Cons.prems show ?thesis by simp
  next
    case (Inr k)
    show ?thesis
    proof (cases "k \<in> known")
      case True
      with Inr Cons.prems have "for_boosts B w evs known = (err, known', calls)" by simp
      from Cons.IH [OF this Cons.prems(2)] show ?thesis by auto
    next
      case False
      let ?a = "send_notification B w b"
      show ?thesis
      proof (cases "\<exists>e. outcome ?a = Raised e")
        case True
        then obtain e where "outcome ?a = Raised e" by blast
        with Inr False Cons.prems show ?thesis by (auto simp: Let_def)
      next
        case nr: False
        obtain err2 known2 calls2 where
          r: "for_boosts B w evs (insert k known) = (err2, known2, calls2)"
          by (cases "for_boosts B w evs (insert k known)") auto
        with Inr False nr Cons.prems(1) have
          eq: "err = err2" "known' = known2" "calls = (b, ?a) # calls2"
          by (auto simp: Let_def split: outcome.splits)
        from for_boosts_mono [OF r] have kin: "k \<in> known2" by auto
        show ?thesis
        proof (cases "c = (b, ?a)")
          case True
          with Inr False kin eq show ?thesis by simp
        next
          case False
          with Cons.prems(2) eq have "c \<in> set calls2" by simp
          from Cons.IH [OF r this] eq show ?thesis by auto
        qed
      qed
    qed
  qed
qed

lemma for_boosts_distinct:
  "for_boosts B w evs known = (err, known', calls) \<Longrightarrow> distinct (notified_keys B calls)"
proof (induction evs arbitrary: known err known' calls)
  case Nil
  then show ?case by (simp add: notified_keys_def)
next
  case (Cons b evs)
  show ?case
  proof (cases "boost_id B b")
    case (Inl e)
    with Cons.prems show ?thesis by (simp add: notified_keys_def)
  next
    case (Inr k)
    show ?thesis
    proof (cases "k \<in> known")
      case True
      with Inr Cons.prems have "for_boosts B w evs known = (err, known', calls)" by simp
      from Cons.IH [OF this] show ?thesis .
    next
      case False
      let ?a = "send_notification B w b"
      show ?thesis
      proof (cases "\<exists>e. outcome ?a = Raised e")
        case True
        then obtain e where "outcome ?a = Raised e" by blast
        with Inr False Cons.prems show ?thesis by (auto simp: Let_def notified_keys_def)
      next
        case nr: False
        obtain err2 known2 calls2 where
          r: "for_boosts B w evs (insert k known) = (err2, known2, calls2)"
          by (cases "for_boosts B w evs (insert k known)") auto
        with Inr False nr Cons.prems(1) have
          eq: "calls = (b, ?a) # calls2"
          by (auto simp: Let_def split: outcome.splits)
        have "Inr k \<notin> set (notified_keys B calls2)"
        proof
          assume "Inr k \<in> set (notified_keys B calls2)"
          then obtain c where c: "c \<in> set calls2" "boost_id B (fst c) = Inr k"
            by (auto simp: notified_keys_def)
          from for_boosts_calls [OF r c(1)] c(2) show False by auto
        qed
        with Cons.IH [OF r] eq Inr show ?thesis by (simp add: notified_keys_def)
      qed
    qed
  qed
qed

lemma for_boosts_completed:
  "for_boosts B w evs known = (None, known', calls) \<Longrightarrow> b \<in> set evs \<Longrightarrow>
     \<exists>k. boost_id B b = Inr k \<and> k \<in> known'
        \<and> (k \<notin> known \<longrightarrow> Inr k \<in> set (notified_keys B calls))"
proof (induction evs arbitrary: known known' calls)
  case Nil
  then show ?case by simp
next
  case (Cons x evs)
  show ?case
  proof (cases "boost_id B x")
    case (Inl e)
    with Cons.prems show ?thesis by simp
  next
    case (Inr k)
    show ?thesis
    proof (cases "k \<in> known")
      case True
      with Inr Cons.prems have r: "for_boosts B w evs known = (None, known', calls)" by simp
      show ?thesis
      proof (cases "b = x")
        case True
        with Inr \<open>k \<in> known\<close> for_boosts_mono [OF r] show ?thesis by auto
      next
        case False
        with Cons.prems(2) have "b \<in> set evs" by simp
        from Cons.IH [OF r this] show ?thesis .
      qed
    next
      case False
      let ?a = "send_notification B w x"
      show ?thesis
      proof (cases "\<exists>e. outcome ?a = Raised e")
        case True
        then obtain e where "outcome ?a = Raised e" by blast
        with Inr False Cons.prems show ?thesis by (auto simp: Let_def)
      next
        case nr: False
        obtain err2 known2 calls2 where
          r: "for_boosts B w evs (insert k known) = (err2, known2, calls2)"
          by (cases "for_boosts B w evs (insert k known)") auto
        with Inr False nr Cons.prems(1) have
          eq: "err2 = None" "known' = known2" "calls = (x, ?a) # calls2"
          by (auto simp: Let_def split: outcome.splits)
        from for_boosts_mono [OF r] have kin: "k \<in> known2" by auto
        show ?thesis
        proof (cases "b = x")
          case True
          with Inr kin eq show ?thesis by (simp add: notified_keys_def)
        next
          case False
          with Cons.prems(2) have "b \<in> set evs" by simp
          from Cons.IH [OF r [unfolded eq(1)] this] eq Inr show ?thesis
            by (auto simp: notified_keys_def)
        qed
      qed
    qed
  qed
qed

lemma for_boosts_all_known:
  "\<forall>b\<in>set evs. \<exists>k. boost_id B b = Inr k \<and> k \<in> known \<Longrightarrow>
     for_boosts B w evs known = (None, known, [])"
  by (induction evs) auto

section \<open>Cycles and runs\<close>

lemma monitor_cycle_for:
  "monitor_cycle B w s = (s', r) \<Longrightarrow>
     for_boosts B w (as_list (fst (get_latest_boosts (feed w)))) (known_boosts s)
       = (loop_error r, known_boosts s', attempts r)"
  by (auto simp: monitor_cycle_def Let_def split: prod.splits)

lemma monitor_cycle_mono:
  "monitor_cycle B w s = (s', r) \<Longrightarrow> known_boosts s \<subseteq> known_boosts s'"
  using for_boosts_mono [OF monitor_cycle_for] .

lemma monitor_cycle_calls:
  "monitor_cycle B w s = (s', r) \<Longrightarrow> c \<in> set (attempts r) \<Longrightarrow>
     \<exists>k. boost_id B (fst c) = Inr k \<and> k \<notin> known_boosts s \<and> k \<in> known_boosts s'
         \<and> snd c = send_notification B w (fst c)"
  using for_boosts_calls [OF monitor_cycle_for] by blast

lemma monitor_boosts_mono:
  "monitor_boosts B ws s = (s', rs) \<Longrightarrow> known_boosts s \<subseteq> known_boosts s'"
proof (induction ws arbitrary: s s' rs)
  case Nil
  then show ?case by simp
next
  case (Cons w ws)
  obtain s1 r where c: "monitor_cycle B w s = (s1, r)" by (cases "monitor_cycle B w s")
  obtain s2 rs2 where m: "monitor_boosts B ws s1 = (s2, rs2)" by (cases "monitor_boosts B ws s1")
  from Cons.prems c m have "s' = s2" by simp
  with monitor_cycle_mono [OF c] Cons.IH [OF m] show ?case by blast
qed

lemma monitor_boosts_calls:
  "monitor_boosts B ws s = (s', rs) \<Longrightarrow> c \<in> set (all_calls rs) \<Longrightarrow>
     \<exists>k. boost_id B (fst c) = Inr k \<and> k \<notin> known_boosts s \<and> k \<in> known_boosts s'"
proof (induction ws arbitrary: s s' rs)
  case Nil
  then show ?case by (simp add: all_calls_def)
next
  case (Cons w ws)
  obtain s1 r where c: "monitor_cycle B w s = (s1, r)" by (cases "monitor_cycle B w s")
  obtain s2 rs2 where m: "monitor_boosts B ws s1 = (s2, rs2)" by (cases "monitor_boosts B ws s1")
  from Cons.prems(1) c m have eq: "s' = s2" "rs = r # rs2" by simp_all
  from Cons.prems(2) eq consider "c \<in> set (attempts r)" | "c \<in> set (all_calls rs2)"
    by (auto simp: all_calls_def)
  then show ?case
  proof cases
    case 1
    from monitor_cycle_calls [OF c 1] monitor_boosts_mono [OF m] eq show ?thesis by blast
  next
    case 2
    from Cons.IH [OF m 2] monitor_cycle_mono [OF c] eq show ?thesis by blast
  qed
qed

lemma monitor_boosts_distinct:
  "monitor_boosts B ws s = (s', rs) \<Longrightarrow> distinct (notified_keys B (all_calls rs))"
proof (induction ws arbitrary: s s' rs)
  case Nil
  then show ?case by (simp add: all_calls_def notified_keys_def)
next
  case (Cons w ws)
  obtain s1 r where c: "monitor_cycle B w s = (s1, r)" by (cases "monitor_cycle B w s")
  obtain s2 rs2 where m: "monitor_boosts B ws s1 = (s2, rs2)" by (cases "monitor_boosts B ws s1")
  from Cons.prems(1) c m have eq: "rs = r # rs2" by simp
  have split: "notified_keys B (all_calls rs)
      = notified_keys B (attempts r) @ notified_keys B (all_calls rs2)"
    by (simp add: eq all_calls_def notified_keys_def)
  have d1: "distinct (notified_keys B (attempts r))"
    using for_boosts_distinct [OF monitor_cycle_for [OF c]] .
  have disj: "set (notified_keys B (attempts r)) \<inter> set (notified_keys B (all_calls rs2)) = {}"
  proof (rule ccontr)
    assume "\<not> ?thesis"
    then obtain x where x1: "x \<in> set (notified_keys B (attempts r))"
      and x2: "x \<in> set (notified_keys B (all_calls rs2))" by blast
    from x1 obtain c1 where c1: "c1 \<in> set (attempts r)" "x = boost_id B (fst c1)"
      by (auto simp: notified_keys_def)
    from x2 obtain c2 where c2: "c2 \<in> set (all_calls rs2)" "x = boost_id B (fst c2)"
      by (auto simp: notified_keys_def)
    from monitor_cycle_calls [OF c c1(1)] c1(2) obtain k where k: "x = Inr k" "k \<in> known_boosts s1"
      by auto
    from monitor_boosts_calls [OF m c2(1)] c2(2) k show False by auto
  qed
  from d1 Cons.IH [OF m] disj split show ?case by simp
qed

section \<open>Evaluating the concrete worlds\<close>

lemma boost_id_boost_of: "boost_id B (boost_of c t) = Inr (c @ ''_'' @ t)"
  by (simp add: boost_id_def boost_of_def bindE_def py_str_def)

lemma fallback_boost_of:
  "fallback_message B (boost_of c t) =
     Inr (header @ ''*Chain:* '' @ c @ nl @ ''*Token Address:* `'' @ t @ ''`'' @ nl
          @ ''*Boost Amount:* $100.00'' @ nl @ ''*Total Amount:* $500.00'' @ nl)"
  by (simp add: fallback_message_def boost_of_def bindE_def py_str_def format_number_examples)

lemma send_timeout:
  assumes "metrics w (boost_of c t) = Failed e"
  shows "send_notification B w (boost_of c t) =
     \<lparr>fetch_error = Some e,
      outcome = (case delivery w (boost_of c t) of
         None \<Rightarrow> Delivered (projr (fallback_message B (boost_of c t)))
       | Some d \<Rightarrow> NotDelivered (projr (fallback_message B (boost_of c t))) d)\<rparr>"
proof -
  have g: "get_token_info (Failed e) = (None, Some e)"
    by (simp add: get_token_info_def fetch_token_info_def)
  have k: "bindE (getitem (boost_of c t) ''chainId'') (\<lambda>c'. getitem (boost_of c t) ''tokenAddress'')
      = Inr (JStr t)"
    by (simp add: boost_of_def bindE_def)
  have m: "build_message B (boost_of c t) None = Inr (projr (fallback_message B (boost_of c t)))"
    by (simp add: build_message_def fallback_boost_of)
  show ?thesis
    unfolding send_notification_def k assms g by (simp add: m split: option.splits)
qed

lemma send_null_cap:
  "metrics w (boost_of c t) = Body null_cap_body \<Longrightarrow>
   send_notification B w (boost_of c t) = \<lparr>fetch_error = None, outcome = Raised TypeError\<rparr>"
  by (simp add: send_notification_def get_token_info_def fetch_token_info_def build_message_def
      null_cap_body_def pair_info_def full_message_def format_number_def boost_of_def bindE_def)


lemma for_boosts_append:
  "for_boosts B w pre known = (None, known1, calls1) \<Longrightarrow>
   for_boosts B w (pre @ post) known =
     (case for_boosts B w post known1 of (err, known2, calls2) \<Rightarrow> (err, known2, calls1 @ calls2))"
proof (induction pre arbitrary: known known1 calls1)
  case Nil
  then show ?case by (simp split: prod.splits)
next
  case (Cons b pre)
  show ?case
  proof (cases "boost_id B b")
    case (Inl e)
    with Cons.prems show ?thesis by simp
  next
    case (Inr k)
    show ?thesis
    proof (cases "k \<in> known")
      case True
      with Inr Cons.prems have "for_boosts B w pre known = (None, known1, calls1)" by simp
      from Cons.IH [OF this] Inr True show ?thesis by simp
    next
      case False
      let ?a = "send_notification B w b"
      show ?thesis
      proof (cases "\<exists>e. outcome ?a = Raised e")
        case True
        then obtain e where "outcome ?a = Raised e" by blast
        with Inr False Cons.prems show ?thesis by (auto simp: Let_def)
      next
        case nr: False
        obtain err2 known2 calls2 where
          r: "for_boosts B w pre (insert k known) = (err2, known2, calls2)"
          by (cases "for_boosts B w pre (insert k known)") auto
        with Inr False nr Cons.prems(1) have
          eq: "err2 = None" "known1 = known2" "calls1 = (b, ?a) # calls2"
          by (auto simp: Let_def split: outcome.splits)
        from Cons.IH [OF r [unfolded eq(1)]] Inr False nr eq show ?thesis
          by (auto simp: Let_def split: outcome.splits prod.splits)
      qed
    qed
  qed
qed

lemma for_boosts_no_raise:
  "\<forall>b\<in>set evs. (\<exists>k. boost_id B b = Inr k) \<and> \<not> raised (send_notification B w b) \<Longrightarrow>
   fst (for_boosts B w evs known) = None"
proof (induction evs arbitrary: known)
  case Nil
  then show ?case by simp
next
  case (Cons b evs)
  then obtain k where k: "boost_id B b = Inr k" by auto
  from Cons.prems have nr: "\<not> raised (send_notification B w b)" by simp
  from Cons.prems have rest: "\<forall>b\<in>set evs. (\<exists>k. boost_id B b = Inr k) \<and> \<not> raised (send_notification B w b)"
    by simp
  from Cons.IH [OF rest, of known] Cons.IH [OF rest, of "insert k known"] k nr show ?case
    by (auto simp: Let_def raised_def split: outcome.splits prod.splits)
qed

section \<open>The poll\<close>

text \<open>
  C2 (as amended). When the poll of the feed fails, \<open>get_latest_boosts\<close> logs the error and
  returns the empty list: the cycle leaves \<open>known_boosts\<close> as it was, sends nothing, raises
  nothing, sets the time of the last check to the current time, sleeps, and the loop goes
  on with the next cycle.
\<close>

theorem failed_poll_cycle:
  "feed w = Failed e \<longrightarrow>
     monitor_cycle B w s =
       (s\<lparr>last_check_time := now w\<rparr>,
        \<lparr>poll_error = Some e, attempts = [], loop_error = None, slept = CHECK_INTERVAL\<rparr>)
     \<and> known_boosts (fst (monitor_cycle B w s)) = known_boosts s
     \<and> last_check_time (fst (monitor_cycle B w s)) = now w
     \<and> monitor_boosts B (w # ws) s =
         (fst (monitor_boosts B ws (s\<lparr>last_check_time := now w\<rparr>)),
          \<lparr>poll_error = Some e, attempts = [], loop_error = None, slept = CHECK_INTERVAL\<rparr>
            # snd (monitor_boosts B ws (s\<lparr>last_check_time := now w\<rparr>)))"
proof
  assume f: "feed w = Failed e"
  have u: "\<lparr>known_boosts = known_boosts s, last_check_time = now w\<rparr> = s\<lparr>last_check_time := now w\<rparr>"
    by (cases s) simp
  have c: "monitor_cycle B w s =
       (s\<lparr>last_check_time := now w\<rparr>,
        \<lparr>poll_error = Some e, attempts = [], loop_error = None, slept = CHECK_INTERVAL\<rparr>)"
    by (simp add: monitor_cycle_def get_latest_boosts_def as_list_def f u)
  show "monitor_cycle B w s =
       (s\<lparr>last_check_time := now w\<rparr>,
        \<lparr>poll_error = Some e, attempts = [], loop_error = None, slept = CHECK_INTERVAL\<rparr>)
     \<and> known_boosts (fst (monitor_cycle B w s)) = known_boosts s
     \<and> last_check_time (fst (monitor_cycle B w s)) = now w
     \<and> monitor_boosts B (w # ws) s =
         (fst (monitor_boosts B ws (s\<lparr>last_check_time := now w\<rparr>)),
          \<lparr>poll_error = Some e, attempts = [], loop_error = None, slept = CHECK_INTERVAL\<rparr>
            # snd (monitor_boosts B ws (s\<lparr>last_check_time := now w\<rparr>)))"
    by (simp add: c split: prod.splits)
qed

theorem failed_poll_cycle_witness:
  "feed timeout_world = Failed Timeout
   \<and> known_boosts (fst (monitor_cycle example_builtins timeout_world fresh_state)) = {}
   \<and> last_check_time (fst (monitor_cycle example_builtins timeout_world fresh_state)) = 7
   \<and> length (snd (monitor_boosts example_builtins [timeout_world, timeout_world] fresh_state)) = 2"
  using failed_poll_cycle [of timeout_world Timeout example_builtins fresh_state "[timeout_world]"]
    failed_poll_cycle [of timeout_world Timeout example_builtins
      "fresh_state\<lparr>last_check_time := now timeout_world\<rparr>" "[]"]
  by (simp add: timeout_world_def fresh_state_def)

theorem failed_poll_advances_time:
  "feed timeout_world = Failed Timeout
   \<and> last_check_time fresh_state = 0
   \<and> last_check_time (fst (monitor_cycle example_builtins timeout_world fresh_state)) = 7"
  by (simp add: monitor_cycle_def get_latest_boosts_def as_list_def timeout_world_def
      fresh_state_def)

text \<open>
  C4. The poller (\<open>get_latest_boosts\<close> and the wrapping at the head of the cycle) gives the
  empty sequence when the request, the status check or the decoding of the body raises,
  wraps a single object into a one-element sequence and passes a list on as it is; the
  \<^verbatim>\<open>for\<close> loop of the cycle, where the deduplication is, runs on that sequence.
\<close>

theorem poller_normalizes:
  "as_list (fst (get_latest_boosts (Failed e))) = []
   \<and> snd (get_latest_boosts (Failed e)) = Some e
   \<and> as_list (fst (get_latest_boosts (Body (JObj kvs)))) = [JObj kvs]
   \<and> as_list (fst (get_latest_boosts (Body (JArr xs)))) = xs
   \<and> for_boosts B w (as_list (fst (get_latest_boosts (feed w)))) (known_boosts s)
       = (loop_error (snd (monitor_cycle B w s)),
          known_boosts (fst (monitor_cycle B w s)),
          attempts (snd (monitor_cycle B w s)))"
proof -
  obtain s' r where c: "monitor_cycle B w s = (s', r)" by (cases "monitor_cycle B w s")
  from monitor_cycle_for [OF c] c show ?thesis
    by (simp add: get_latest_boosts_def as_list_def)
qed

section \<open>Deduplication across cycles\<close>

lemma monitor_cycle_Body:
  "feed w = Body (JArr evs) \<Longrightarrow> known_boosts s = K \<Longrightarrow>
   for_boosts B w evs K = (err, known', calls) \<Longrightarrow>
   monitor_cycle B w s =
     (\<lparr>known_boosts = known',
       last_check_time = (case err of None \<Rightarrow> now w | Some e \<Rightarrow> last_check_time s)\<rparr>,
      \<lparr>poll_error = None, attempts = calls, loop_error = err, slept = CHECK_INTERVAL\<rparr>)"
  by (auto simp: monitor_cycle_def get_latest_boosts_def as_list_def)

lemma fresh_state_simps: "known_boosts fresh_state = {}" "last_check_time fresh_state = 0"
  by (simp_all add: fresh_state_def)

text \<open>
  C9. The key joins \<open>chainId\<close> and \<open>tokenAddress\<close> with an underscore and is not injective:
  the pairs (a, b\_c) and (a\_b, c) have the same key, and in a cycle that meets both the
  second event, never seen before, is taken as seen and gets no notification.
\<close>

theorem boost_id_not_injective:
  "boost_of ''a'' ''b_c'' \<noteq> boost_of ''a_b'' ''c''
   \<and> boost_id B (boost_of ''a'' ''b_c'') = Inr ''a_b_c''
   \<and> boost_id B (boost_of ''a_b'' ''c'') = Inr ''a_b_c''
   \<and> feed colliding_world = Body (JArr [boost_of ''a'' ''b_c'', boost_of ''a_b'' ''c''])
   \<and> map fst (attempts (snd (monitor_cycle B colliding_world fresh_state)))
       = [boost_of ''a'' ''b_c'']
   \<and> loop_error (snd (monitor_cycle B colliding_world fresh_state)) = None"
proof -
  have m: "\<And>b. metrics colliding_world b = Failed Timeout" by (simp add: colliding_world_def)
  have d: "\<And>b. delivery colliding_world b = None" by (simp add: colliding_world_def)
  have f: "feed colliding_world = Body (JArr [boost_of ''a'' ''b_c'', boost_of ''a_b'' ''c''])"
    by (simp add: colliding_world_def)
  have k: "boost_id B (boost_of ''a'' ''b_c'') = Inr ''a_b_c''"
    "boost_id B (boost_of ''a_b'' ''c'') = Inr ''a_b_c''"
    by (simp_all add: boost_id_boost_of)
  have ne: "boost_of ''a'' ''b_c'' \<noteq> boost_of ''a_b'' ''c''" by (simp add: boost_of_def)
  have l: "for_boosts B colliding_world [boost_of ''a'' ''b_c'', boost_of ''a_b'' ''c''] {}
      = (None, {''a_b_c''},
         [(boost_of ''a'' ''b_c'', send_notification B colliding_world (boost_of ''a'' ''b_c''))])"
    by (simp add: k send_timeout [OF m] d Let_def)
  have "map fst (attempts (snd (monitor_cycle B colliding_world fresh_state)))
       = [boost_of ''a'' ''b_c'']
     \<and> loop_error (snd (monitor_cycle B colliding_world fresh_state)) = None"
    using monitor_cycle_Body [OF f fresh_state_simps(1) l] by simp
  with ne k f show ?thesis by blast
qed


lemma two_boosts_metrics:
  "metrics two_boosts_world (boost_of ''solana'' ''AAA'') = Body null_cap_body"
  "metrics two_boosts_world (boost_of ''solana'' ''CCC'') = Failed Timeout"
  "delivery two_boosts_world b = None"
  "feed two_boosts_world = Body (JArr [boost_of ''solana'' ''AAA'', boost_of ''solana'' ''CCC''])"
  by (simp_all add: two_boosts_world_def boost_of_def)

lemma two_boosts_first_cycle:
  "monitor_cycle B two_boosts_world fresh_state =
     (\<lparr>known_boosts = {''solana_AAA''}, last_check_time = 0\<rparr>,
      \<lparr>poll_error = None,
       attempts = [(boost_of ''solana'' ''AAA'', \<lparr>fetch_error = None, outcome = Raised TypeError\<rparr>)],
       loop_error = Some TypeError, slept = CHECK_INTERVAL\<rparr>)"
proof -
  have "for_boosts B two_boosts_world
          [boost_of ''solana'' ''AAA'', boost_of ''solana'' ''CCC''] {}
      = (Some TypeError, {''solana_AAA''},
         [(boost_of ''solana'' ''AAA'', \<lparr>fetch_error = None, outcome = Raised TypeError\<rparr>)])"
    by (simp add: boost_id_boost_of send_null_cap [OF two_boosts_metrics(1)] Let_def)
  from monitor_cycle_Body [OF two_boosts_metrics(4) fresh_state_simps(1) this]
  show ?thesis by (simp add: fresh_state_simps)
qed

lemma two_boosts_second_cycle:
  "monitor_cycle B two_boosts_world \<lparr>known_boosts = {''solana_AAA''}, last_check_time = 0\<rparr> =
     (\<lparr>known_boosts = {''solana_CCC'', ''solana_AAA''}, last_check_time = now two_boosts_world\<rparr>,
      \<lparr>poll_error = None,
       attempts = [(boost_of ''solana'' ''CCC'',
                    send_notification B two_boosts_world (boost_of ''solana'' ''CCC''))],
       loop_error = None, slept = CHECK_INTERVAL\<rparr>)"
proof -
  have "for_boosts B two_boosts_world
          [boost_of ''solana'' ''AAA'', boost_of ''solana'' ''CCC''] {''solana_AAA''}
      = (None, {''solana_CCC'', ''solana_AAA''},
         [(boost_of ''solana'' ''CCC'',
           send_notification B two_boosts_world (boost_of ''solana'' ''CCC''))])"
    by (simp add: boost_id_boost_of Let_def two_boosts_metrics(3)
        send_timeout [OF two_boosts_metrics(2)])
  have "known_boosts \<lparr>known_boosts = {''solana_AAA''}, last_check_time = 0\<rparr> = {''solana_AAA''}"
    by simp
  from monitor_cycle_Body [OF two_boosts_metrics(4) this \<open>for_boosts _ _ _ _ = _\<close>]
  show ?thesis by simp
qed

text \<open>
  C10. The key of an event is put into \<open>known_boosts\<close> before \<open>send_notification\<close> is called
  on it, and nothing takes it out when the call raises or the sending fails: an event at
  the head of the feed with an unseen key is marked and then notified, and the key of
  every event a cycle called \<open>send_notification\<close> on, whatever the outcome, is in the set
  after the cycle and is never notified again in the cycles that follow.
\<close>

theorem key_marked_before_notification:
  "(as_list (fst (get_latest_boosts (feed w))) = b # rest \<and> boost_id B b = Inr k
      \<and> k \<notin> known_boosts s \<longrightarrow>
        k \<in> known_boosts (fst (monitor_cycle B w s))
      \<and> attempts (snd (monitor_cycle B w s)) \<noteq> []
      \<and> hd (attempts (snd (monitor_cycle B w s))) = (b, send_notification B w b))
   \<and> (\<forall>c \<in> set (attempts (snd (monitor_cycle B w s))).
        \<exists>k. boost_id B (fst c) = Inr k
           \<and> k \<in> known_boosts (fst (monitor_cycle B w s))
           \<and> (\<forall>c' \<in> set (all_calls (snd (monitor_boosts B ws (fst (monitor_cycle B w s))))).
                 boost_id B (fst c') \<noteq> Inr k))"
proof -
  obtain s' r where c: "monitor_cycle B w s = (s', r)" by (cases "monitor_cycle B w s")
  obtain s'' rs where m: "monitor_boosts B ws s' = (s'', rs)" by (cases "monitor_boosts B ws s'")
  have one: "k \<in> known_boosts s' \<and> attempts r \<noteq> [] \<and> hd (attempts r) = (b, send_notification B w b)"
    if h: "as_list (fst (get_latest_boosts (feed w))) = b # rest" "boost_id B b = Inr k"
      "k \<notin> known_boosts s"
  proof -
    from monitor_cycle_for [OF c] h(1)
    have f: "for_boosts B w (b # rest) (known_boosts s) = (loop_error r, known_boosts s', attempts r)"
      by simp
    obtain err2 known2 calls2 where
      r2: "for_boosts B w rest (insert k (known_boosts s)) = (err2, known2, calls2)"
      by (cases "for_boosts B w rest (insert k (known_boosts s))") auto
    from for_boosts_mono [OF r2] have kin: "k \<in> known2" by auto
    from f have a: "attempts r = snd (snd (for_boosts B w (b # rest) (known_boosts s)))"
      and kb: "known_boosts s' = fst (snd (for_boosts B w (b # rest) (known_boosts s)))"
      by simp_all
    from kin h(2,3) r2 show ?thesis unfolding a kb
      by (auto simp: Let_def split: outcome.splits)
  qed
  have two: "\<exists>k. boost_id B (fst x) = Inr k \<and> k \<in> known_boosts s'
           \<and> (\<forall>c' \<in> set (all_calls rs). boost_id B (fst c') \<noteq> Inr k)"
    if x: "x \<in> set (attempts r)" for x
  proof -
    from monitor_cycle_calls [OF c x] obtain k where
      k: "boost_id B (fst x) = Inr k" "k \<in> known_boosts s'" by blast
    have "boost_id B (fst c') \<noteq> Inr k" if "c' \<in> set (all_calls rs)" for c'
      using monitor_boosts_calls [OF m that] k(2) by auto
    with k show ?thesis by blast
  qed
  from one two show ?thesis by (simp add: c m)
qed

theorem key_marked_before_notification_witness:
  "as_list (fst (get_latest_boosts (feed two_boosts_world)))
      = boost_of ''solana'' ''AAA'' # [boost_of ''solana'' ''CCC'']
   \<and> boost_id example_builtins (boost_of ''solana'' ''AAA'') = Inr ''solana_AAA''
   \<and> ''solana_AAA'' \<notin> known_boosts fresh_state
   \<and> raised (send_notification example_builtins two_boosts_world (boost_of ''solana'' ''AAA''))
   \<and> ''solana_AAA'' \<in> known_boosts (fst (monitor_cycle example_builtins two_boosts_world fresh_state))
   \<and> hd (attempts (snd (monitor_cycle example_builtins two_boosts_world fresh_state)))
       = (boost_of ''solana'' ''AAA'',
          send_notification example_builtins two_boosts_world (boost_of ''solana'' ''AAA''))
   \<and> map fst (all_calls (snd (monitor_boosts example_builtins [two_boosts_world]
         (fst (monitor_cycle example_builtins two_boosts_world fresh_state)))))
       = [boost_of ''solana'' ''CCC'']
   \<and> notified_keys example_builtins (all_calls (snd (monitor_boosts example_builtins
         [two_boosts_world] (fst (monitor_cycle example_builtins two_boosts_world fresh_state)))))
       = [Inr ''solana_CCC'']"
  using key_marked_before_notification [of two_boosts_world "boost_of ''solana'' ''AAA''"
      "[boost_of ''solana'' ''CCC'']" example_builtins "''solana_AAA''" fresh_state
      "[two_boosts_world]"]
  by (simp add: two_boosts_first_cycle two_boosts_second_cycle two_boosts_metrics
      get_latest_boosts_def as_list_def boost_id_boost_of fresh_state_simps all_calls_def
      send_null_cap raised_def notified_keys_def)

section \<open>One failing event in a cycle\<close>

lemma flaky_facts:
  "metrics flaky_world b = Failed Timeout"
  "delivery flaky_world (boost_of ''solana'' ''AAA'') = Some TelegramError"
  "delivery flaky_world (boost_of ''solana'' ''CCC'') = None"
  "feed flaky_world = Body (JArr [boost_of ''solana'' ''AAA'', boost_of ''solana'' ''CCC''])"
  by (simp_all add: flaky_world_def boost_of_def)

lemma flaky_for_boosts:
  "for_boosts B flaky_world [boost_of ''solana'' ''AAA'', boost_of ''solana'' ''CCC''] {}
     = (None, {''solana_CCC'', ''solana_AAA''},
        [(boost_of ''solana'' ''AAA'', send_notification B flaky_world (boost_of ''solana'' ''AAA'')),
         (boost_of ''solana'' ''CCC'', send_notification B flaky_world (boost_of ''solana'' ''CCC''))])"
  "for_boosts B flaky_world [boost_of ''solana'' ''AAA'', boost_of ''solana'' ''CCC'']
       {''solana_AAA''}
     = (None, {''solana_CCC'', ''solana_AAA''},
        [(boost_of ''solana'' ''CCC'', send_notification B flaky_world (boost_of ''solana'' ''CCC''))])"
  "for_boosts B flaky_world [boost_of ''solana'' ''AAA'', boost_of ''solana'' ''CCC'']
       {''solana_CCC'', ''solana_AAA''}
     = (None, {''solana_CCC'', ''solana_AAA''}, [])"
  by (simp_all add: boost_id_boost_of Let_def send_timeout [OF flaky_facts(1)] flaky_facts)

lemma get_token_info_Failed: "get_token_info (Failed e) = (None, Some e)"
  by (simp add: get_token_info_def fetch_token_info_def)

text \<open>
  What \<open>send_notification\<close> does on an event that has a key: it raises exactly when the
  building of the message does, whatever the metrics endpoint and the sending do.
\<close>

lemma send_notification_outcome:
  assumes "boost_id B b = Inr k"
  shows "outcome (send_notification B w b) =
     (case build_message B b (fst (get_token_info (metrics w b))) of
        Inl e \<Rightarrow> Raised e
      | Inr m \<Rightarrow> (case delivery w b of None \<Rightarrow> Delivered m | Some d \<Rightarrow> NotDelivered m d))"
proof -
  from assms obtain v where
    "bindE (getitem b ''chainId'') (\<lambda>c. getitem b ''tokenAddress'') = Inr v"
    by (auto simp: boost_id_def bindE_def split: sum.splits)
  then show ?thesis
    by (simp add: send_notification_def case_prod_unfold split: sum.splits option.splits)
qed

lemma keyless_boost_id: "boost_id B keyless_boost = Inl KeyError"
  by (simp add: boost_id_def keyless_boost_def bindE_def)

text \<open>
  C3, as amended. A metrics fetch that fails is recovered as absent metrics, and a sending
  that fails is caught inside \<open>send_notification\<close>: for an event that has a key,
  \<open>send_notification\<close> raises only when the building of the message does. So when every
  event of the cycle has a key and a message, the loop ends normally whatever the fetches
  and the sendings do, and every event is processed, each unseen key being notified. An
  exception raised while the message of an event is built, or while its key is computed,
  is caught only around the whole cycle: the loop stops at that event, and the events
  after it are neither notified nor marked in that cycle.
\<close>

theorem raising_event_abandons_cycle:
  "get_token_info (Failed x) = (None, Some x)
   \<and> (boost_id B b = Inr k \<longrightarrow>
        outcome (send_notification B w b) =
          (case build_message B b (fst (get_token_info (metrics w b))) of
             Inl e \<Rightarrow> Raised e
           | Inr m \<Rightarrow> (case delivery w b of None \<Rightarrow> Delivered m | Some d \<Rightarrow> NotDelivered m d)))
   \<and> ((\<forall>b\<in>set evs. (\<exists>k. boost_id B b = Inr k)
          \<and> (\<exists>m. build_message B b (fst (get_token_info (metrics w b))) = Inr m)) \<longrightarrow>
       fst (for_boosts B w evs known) = None
     \<and> (\<forall>b\<in>set evs. \<exists>k. boost_id B b = Inr k
            \<and> k \<in> fst (snd (for_boosts B w evs known))
            \<and> (k \<notin> known \<longrightarrow>
                 Inr k \<in> set (notified_keys B (snd (snd (for_boosts B w evs known)))))))
   \<and> (for_boosts B w pre known = (None, known1, calls1) \<and> boost_id B b = Inr k
        \<and> k \<notin> known1 \<and> outcome (send_notification B w b) = Raised e \<longrightarrow>
       for_boosts B w (pre @ b # post) known
         = (Some e, insert k known1, calls1 @ [(b, send_notification B w b)]))
   \<and> (for_boosts B w pre known = (None, known1, calls1) \<and> boost_id B b = Inl e \<longrightarrow>
       for_boosts B w (pre @ b # post) known = (Some e, known1, calls1))"
proof -
  have one: "fst (for_boosts B w evs known) = None
     \<and> (\<forall>b\<in>set evs. \<exists>k. boost_id B b = Inr k
            \<and> k \<in> fst (snd (for_boosts B w evs known))
            \<and> (k \<notin> known \<longrightarrow>
                 Inr k \<in> set (notified_keys B (snd (snd (for_boosts B w evs known))))))"
    if h: "\<forall>b\<in>set evs. (\<exists>k. boost_id B b = Inr k)
          \<and> (\<exists>m. build_message B b (fst (get_token_info (metrics w b))) = Inr m)"
  proof -
    have "\<not> raised (send_notification B w b)" if "b \<in> set evs" for b
    proof -
      from h that obtain k m where "boost_id B b = Inr k"
        "build_message B b (fst (get_token_info (metrics w b))) = Inr m" by blast
      with send_notification_outcome [of B b k w] show ?thesis
        by (simp add: raised_def split: option.splits)
    qed
    with h have h': "\<forall>b\<in>set evs. (\<exists>k. boost_id B b = Inr k) \<and> \<not> raised (send_notification B w b)"
      by blast
    obtain err known' calls where r: "for_boosts B w evs known = (err, known', calls)"
      by (cases "for_boosts B w evs known") auto
    from for_boosts_no_raise [OF h', of known] r have "err = None" by simp
    with r have r': "for_boosts B w evs known = (None, known', calls)" by simp
    from for_boosts_completed [OF r'] show ?thesis by (simp add: r')
  qed
  have two: "for_boosts B w (pre @ b # post) known
         = (Some e, insert k known1, calls1 @ [(b, send_notification B w b)])"
    if h: "for_boosts B w pre known = (None, known1, calls1)" "boost_id B b = Inr k"
      "k \<notin> known1" "outcome (send_notification B w b) = Raised e"
    using for_boosts_append [OF h(1), of "b # post"] h(2,3,4) by (simp add: Let_def)
  have three: "for_boosts B w (pre @ b # post) known = (Some e, known1, calls1)"
    if h: "for_boosts B w pre known = (None, known1, calls1)" "boost_id B b = Inl e"
    using for_boosts_append [OF h(1), of "b # post"] h(2) by simp
  from one two three send_notification_outcome [of B b k w] get_token_info_Failed [of x]
  show ?thesis by blast
qed

theorem raising_event_abandons_cycle_witness:
  "get_token_info (metrics flaky_world (boost_of ''solana'' ''AAA'')) = (None, Some Timeout)
   \<and> outcome (send_notification example_builtins flaky_world (boost_of ''solana'' ''AAA''))
       = NotDelivered (header @ ''*Chain:* solana'' @ nl @ ''*Token Address:* `AAA`'' @ nl
            @ ''*Boost Amount:* $100.00'' @ nl @ ''*Total Amount:* $500.00'' @ nl) TelegramError
   \<and> fst (for_boosts example_builtins flaky_world
        [boost_of ''solana'' ''AAA'', boost_of ''solana'' ''CCC''] {}) = None
   \<and> notified_keys example_builtins (snd (snd (for_boosts example_builtins flaky_world
        [boost_of ''solana'' ''AAA'', boost_of ''solana'' ''CCC''] {})))
       = [Inr ''solana_AAA'', Inr ''solana_CCC'']
   \<and> for_boosts example_builtins two_boosts_world [] {} = (None, {}, [])
   \<and> outcome (send_notification example_builtins two_boosts_world (boost_of ''solana'' ''AAA''))
       = Raised TypeError
   \<and> for_boosts example_builtins two_boosts_world
        ([] @ boost_of ''solana'' ''AAA'' # [boost_of ''solana'' ''CCC'']) {}
       = (Some TypeError, insert ''solana_AAA'' {},
          [] @ [(boost_of ''solana'' ''AAA'',
                 send_notification example_builtins two_boosts_world (boost_of ''solana'' ''AAA''))])
   \<and> boost_id example_builtins keyless_boost = Inl KeyError
   \<and> for_boosts example_builtins flaky_world
        ([] @ keyless_boost # [boost_of ''solana'' ''CCC'']) {} = (Some KeyError, {}, [])"
proof -
  let ?A = "boost_of ''solana'' ''AAA''" and ?C = "boost_of ''solana'' ''CCC''"
  let ?m = "header @ ''*Chain:* solana'' @ nl @ ''*Token Address:* `AAA`'' @ nl
            @ ''*Boost Amount:* $100.00'' @ nl @ ''*Total Amount:* $500.00'' @ nl"
  note flaky = raising_event_abandons_cycle [where x = Timeout and B = example_builtins
      and b = ?A and k = "''solana_AAA''" and w = flaky_world and evs = "[?A, ?C]"
      and known = "{}" and pre = "[]" and ?known1.0 = "{}" and ?calls1.0 = "[]"
      and e = TypeError and post = "[?C]"]
  note two = raising_event_abandons_cycle [where x = Timeout and B = example_builtins
      and b = ?A and k = "''solana_AAA''" and w = two_boosts_world and evs = "[]"
      and known = "{}" and pre = "[]" and ?known1.0 = "{}" and ?calls1.0 = "[]"
      and e = TypeError and post = "[?C]"]
  note keyless = raising_event_abandons_cycle [where x = Timeout and B = example_builtins
      and b = keyless_boost and k = "''solana_AAA''" and w = flaky_world and evs = "[]"
      and known = "{}" and pre = "[]" and ?known1.0 = "{}" and ?calls1.0 = "[]"
      and e = KeyError and post = "[?C]"]
  have g: "get_token_info (metrics flaky_world b) = (None, Some Timeout)" for b
    using flaky by (simp only: flaky_facts(1))
  have bm: "build_message example_builtins (boost_of c t) (fst (get_token_info (metrics flaky_world (boost_of c t))))
      = Inr (header @ ''*Chain:* '' @ c @ nl @ ''*Token Address:* `'' @ t @ ''`'' @ nl
          @ ''*Boost Amount:* $100.00'' @ nl @ ''*Total Amount:* $500.00'' @ nl)" for c t
    by (simp add: g build_message_def fallback_boost_of)
  have k: "boost_id example_builtins ?A = Inr ''solana_AAA''" by (simp add: boost_id_boost_of)
  have o: "outcome (send_notification example_builtins flaky_world ?A) = NotDelivered ?m TelegramError"
    unfolding flaky [THEN conjunct2, THEN conjunct1, THEN mp, OF k] bm flaky_facts(2) by simp
  have "\<forall>b\<in>set [?A, ?C]. (\<exists>k. boost_id example_builtins b = Inr k)
          \<and> (\<exists>m. build_message example_builtins b (fst (get_token_info (metrics flaky_world b))) = Inr m)"
    by (simp add: boost_id_boost_of bm)
  with flaky have n: "fst (for_boosts example_builtins flaky_world [?A, ?C] {}) = None" by blast
  have nk: "notified_keys example_builtins (snd (snd (for_boosts example_builtins flaky_world
        [?A, ?C] {}))) = [Inr ''solana_AAA'', Inr ''solana_CCC'']"
    unfolding flaky_for_boosts(1) by (simp add: notified_keys_def boost_id_boost_of)
  have e: "for_boosts example_builtins two_boosts_world [] {} = (None, {}, [])" by simp
  have r: "outcome (send_notification example_builtins two_boosts_world ?A) = Raised TypeError"
    by (simp add: send_null_cap [OF two_boosts_metrics(1)])
  have "''solana_AAA'' \<notin> ({} :: string set)" by simp
  with two e r k
  have ab: "for_boosts example_builtins two_boosts_world ([] @ ?A # [?C]) {}
       = (Some TypeError, insert ''solana_AAA'' {},
          [] @ [(?A, send_notification example_builtins two_boosts_world ?A)])"
    by blast
  have e': "for_boosts example_builtins flaky_world [] {} = (None, {}, [])" by simp
  from keyless e' keyless_boost_id [of example_builtins]
  have kl: "for_boosts example_builtins flaky_world ([] @ keyless_boost # [?C]) {}
      = (Some KeyError, {}, [])"
    by blast
  from g [of ?A] o n nk e r ab keyless_boost_id [of example_builtins] kl show ?thesis
    by (simp only: simp_thms)
qed

theorem later_event_not_notified:
  "feed two_boosts_world = Body (JArr [boost_of ''solana'' ''AAA'', boost_of ''solana'' ''CCC''])
   \<and> well_formed_boost (boost_of ''solana'' ''AAA'')
   \<and> well_formed_boost (boost_of ''solana'' ''CCC'')
   \<and> boost_id example_builtins (boost_of ''solana'' ''CCC'') = Inr ''solana_CCC''
   \<and> ''solana_CCC'' \<notin> known_boosts fresh_state
   \<and> raised (send_notification example_builtins two_boosts_world (boost_of ''solana'' ''AAA''))
   \<and> map fst (attempts (snd (monitor_cycle example_builtins two_boosts_world fresh_state)))
       = [boost_of ''solana'' ''AAA'']
   \<and> delivered (attempts (snd (monitor_cycle example_builtins two_boosts_world fresh_state))) = []
   \<and> ''solana_CCC'' \<notin> known_boosts (fst (monitor_cycle example_builtins two_boosts_world fresh_state))"
  by (simp add: two_boosts_first_cycle two_boosts_metrics boost_id_boost_of fresh_state_simps
      send_null_cap raised_def, simp add: well_formed_boost_def boost_of_def)

lemma three_boosts_facts:
  "metrics three_boosts_world (boost_of ''solana'' ''AAA'') = Body null_cap_body"
  "metrics three_boosts_world (boost_of ''solana'' ''BBB'') = Body null_cap_body"
  "metrics three_boosts_world (boost_of ''solana'' ''CCC'') = Failed Timeout"
  "feed three_boosts_world = Body (JArr [boost_of ''solana'' ''AAA'', boost_of ''solana'' ''BBB'',
      boost_of ''solana'' ''CCC''])"
  by (simp_all add: three_boosts_world_def boost_of_def)

lemma three_boosts_cycles:
  "monitor_cycle B three_boosts_world fresh_state =
     (seen_state,
      \<lparr>poll_error = None,
       attempts = [(boost_of ''solana'' ''AAA'', \<lparr>fetch_error = None, outcome = Raised TypeError\<rparr>)],
       loop_error = Some TypeError, slept = CHECK_INTERVAL\<rparr>)"
  "monitor_cycle B three_boosts_world seen_state =
     (\<lparr>known_boosts = {''solana_BBB'', ''solana_AAA''}, last_check_time = 0\<rparr>,
      \<lparr>poll_error = None,
       attempts = [(boost_of ''solana'' ''BBB'', \<lparr>fetch_error = None, outcome = Raised TypeError\<rparr>)],
       loop_error = Some TypeError, slept = CHECK_INTERVAL\<rparr>)"
proof -
  have a: "for_boosts B three_boosts_world
          [boost_of ''solana'' ''AAA'', boost_of ''solana'' ''BBB'', boost_of ''solana'' ''CCC''] {}
      = (Some TypeError, {''solana_AAA''},
         [(boost_of ''solana'' ''AAA'', \<lparr>fetch_error = None, outcome = Raised TypeError\<rparr>)])"
    by (simp add: boost_id_boost_of send_null_cap [OF three_boosts_facts(1)] Let_def)
  from monitor_cycle_Body [OF three_boosts_facts(4) fresh_state_simps(1) a]
  show "monitor_cycle B three_boosts_world fresh_state =
     (seen_state,
      \<lparr>poll_error = None,
       attempts = [(boost_of ''solana'' ''AAA'', \<lparr>fetch_error = None, outcome = Raised TypeError\<rparr>)],
       loop_error = Some TypeError, slept = CHECK_INTERVAL\<rparr>)"
    by (simp add: fresh_state_simps seen_state_def)
  have k: "known_boosts seen_state = {''solana_AAA''}" by (simp add: seen_state_def)
  have b: "for_boosts B three_boosts_world
          [boost_of ''solana'' ''AAA'', boost_of ''solana'' ''BBB'', boost_of ''solana'' ''CCC'']
          {''solana_AAA''}
      = (Some TypeError, {''solana_BBB'', ''solana_AAA''},
         [(boost_of ''solana'' ''BBB'', \<lparr>fetch_error = None, outcome = Raised TypeError\<rparr>)])"
    by (simp add: boost_id_boost_of send_null_cap [OF three_boosts_facts(2)] Let_def)
  from monitor_cycle_Body [OF three_boosts_facts(4) k b]
  show "monitor_cycle B three_boosts_world seen_state =
     (\<lparr>known_boosts = {''solana_BBB'', ''solana_AAA''}, last_check_time = 0\<rparr>,
      \<lparr>poll_error = None,
       attempts = [(boost_of ''solana'' ''BBB'', \<lparr>fetch_error = None, outcome = Raised TypeError\<rparr>)],
       loop_error = Some TypeError, slept = CHECK_INTERVAL\<rparr>)"
    by (simp add: seen_state_def)
qed

lemma flaky_cycles:
  "monitor_cycle B flaky_world seen_state =
     (\<lparr>known_boosts = {''solana_CCC'', ''solana_AAA''}, last_check_time = 7\<rparr>,
      \<lparr>poll_error = None,
       attempts = [(boost_of ''solana'' ''CCC'',
                    send_notification B flaky_world (boost_of ''solana'' ''CCC''))],
       loop_error = None, slept = CHECK_INTERVAL\<rparr>)"
  "monitor_cycle B flaky_world \<lparr>known_boosts = {''solana_CCC'', ''solana_AAA''}, last_check_time = 7\<rparr> =
     (\<lparr>known_boosts = {''solana_CCC'', ''solana_AAA''}, last_check_time = 7\<rparr>,
      \<lparr>poll_error = None, attempts = [], loop_error = None, slept = CHECK_INTERVAL\<rparr>)"
proof -
  have k: "known_boosts seen_state = {''solana_AAA''}" by (simp add: seen_state_def)
  have n: "now flaky_world = 7" by (simp add: flaky_world_def)
  from monitor_cycle_Body [OF flaky_facts(4) k flaky_for_boosts(2)]
  show "monitor_cycle B flaky_world seen_state =
     (\<lparr>known_boosts = {''solana_CCC'', ''solana_AAA''}, last_check_time = 7\<rparr>,
      \<lparr>poll_error = None,
       attempts = [(boost_of ''solana'' ''CCC'',
                    send_notification B flaky_world (boost_of ''solana'' ''CCC''))],
       loop_error = None, slept = CHECK_INTERVAL\<rparr>)"
    by (simp add: n)
  have k2: "known_boosts \<lparr>known_boosts = {''solana_CCC'', ''solana_AAA''}, last_check_time = 7\<rparr>
      = {''solana_CCC'', ''solana_AAA''}" by simp
  from monitor_cycle_Body [OF flaky_facts(4) k2 flaky_for_boosts(3)]
  show "monitor_cycle B flaky_world \<lparr>known_boosts = {''solana_CCC'', ''solana_AAA''}, last_check_time = 7\<rparr> =
     (\<lparr>known_boosts = {''solana_CCC'', ''solana_AAA''}, last_check_time = 7\<rparr>,
      \<lparr>poll_error = None, attempts = [], loop_error = None, slept = CHECK_INTERVAL\<rparr>)"
    by (simp add: n)
qed

text \<open>
  C1 (as amended). A key in \<open>known_boosts\<close> is never removed, and no later cycle calls
  \<open>send_notification\<close> on an event with that key, whatever its other fields; over a whole
  run no key is notified twice. When a cycle ends without an exception, every event of
  its poll response has its key in the set, each key unseen before was notified in that
  cycle, and a second cycle on the same poll response notifies nothing and leaves the
  set as it is.
\<close>

theorem seen_key_never_renotified:
  "known_boosts s \<subseteq> known_boosts (fst (monitor_boosts B ws s))
   \<and> (\<forall>c \<in> set (all_calls (snd (monitor_boosts B ws s))).
        \<forall>k \<in> known_boosts s. boost_id B (fst c) \<noteq> Inr k)
   \<and> distinct (notified_keys B (all_calls (snd (monitor_boosts B ws s))))
   \<and> (feed w2 = feed w1 \<and> loop_error (snd (monitor_cycle B w1 s)) = None \<longrightarrow>
        attempts (snd (monitor_cycle B w2 (fst (monitor_cycle B w1 s)))) = []
      \<and> known_boosts (fst (monitor_cycle B w2 (fst (monitor_cycle B w1 s))))
          = known_boosts (fst (monitor_cycle B w1 s))
      \<and> (\<forall>b \<in> set (as_list (fst (get_latest_boosts (feed w1)))).
           \<exists>k. boost_id B b = Inr k
              \<and> k \<in> known_boosts (fst (monitor_cycle B w1 s))
              \<and> (k \<notin> known_boosts s \<longrightarrow>
                   Inr k \<in> set (notified_keys B (attempts (snd (monitor_cycle B w1 s)))))))"
proof -
  obtain s' rs where m: "monitor_boosts B ws s = (s', rs)" by (cases "monitor_boosts B ws s")
  have a: "known_boosts s \<subseteq> known_boosts s'" using monitor_boosts_mono [OF m] .
  have b: "\<forall>c \<in> set (all_calls rs). \<forall>k \<in> known_boosts s. boost_id B (fst c) \<noteq> Inr k"
    using monitor_boosts_calls [OF m] by fastforce
  have c: "distinct (notified_keys B (all_calls rs))" using monitor_boosts_distinct [OF m] .
  have d: "attempts (snd (monitor_cycle B w2 (fst (monitor_cycle B w1 s)))) = []
      \<and> known_boosts (fst (monitor_cycle B w2 (fst (monitor_cycle B w1 s))))
          = known_boosts (fst (monitor_cycle B w1 s))
      \<and> (\<forall>b \<in> set (as_list (fst (get_latest_boosts (feed w1)))).
           \<exists>k. boost_id B b = Inr k
              \<and> k \<in> known_boosts (fst (monitor_cycle B w1 s))
              \<and> (k \<notin> known_boosts s \<longrightarrow>
                   Inr k \<in> set (notified_keys B (attempts (snd (monitor_cycle B w1 s))))))"
    if h: "feed w2 = feed w1" "loop_error (snd (monitor_cycle B w1 s)) = None"
  proof -
    let ?evs = "as_list (fst (get_latest_boosts (feed w1)))"
    obtain s1 r1 where c1: "monitor_cycle B w1 s = (s1, r1)" by (cases "monitor_cycle B w1 s")
    obtain s2 r2 where c2: "monitor_cycle B w2 s1 = (s2, r2)" by (cases "monitor_cycle B w2 s1")
    from monitor_cycle_for [OF c1] h(2) c1
    have f1: "for_boosts B w1 ?evs (known_boosts s) = (None, known_boosts s1, attempts r1)"
      by simp
    have all: "\<forall>b\<in>set ?evs. \<exists>k. boost_id B b = Inr k \<and> k \<in> known_boosts s1
        \<and> (k \<notin> known_boosts s \<longrightarrow> Inr k \<in> set (notified_keys B (attempts r1)))"
      using for_boosts_completed [OF f1] by blast
    then have "\<forall>b\<in>set ?evs. \<exists>k. boost_id B b = Inr k \<and> k \<in> known_boosts s1" by blast
    from for_boosts_all_known [OF this, of w2] monitor_cycle_for [OF c2] h(1)
    have "attempts r2 = []" "known_boosts s2 = known_boosts s1" by simp_all
    with all show ?thesis by (simp add: c1 c2)
  qed
  from a b c d show ?thesis by (simp add: m)
qed

theorem seen_key_never_renotified_witness:
  "''solana_AAA'' \<in> known_boosts seen_state
   \<and> boost_id example_builtins (boost_of ''solana'' ''AAA'') = Inr ''solana_AAA''
   \<and> ''solana_AAA'' \<in> known_boosts (fst (monitor_boosts example_builtins
        [flaky_world, flaky_world] seen_state))
   \<and> notified_keys example_builtins (all_calls (snd (monitor_boosts example_builtins
        [flaky_world, flaky_world] seen_state))) = [Inr ''solana_CCC'']
   \<and> feed flaky_world = Body (JArr [boost_of ''solana'' ''AAA'', boost_of ''solana'' ''CCC''])
   \<and> loop_error (snd (monitor_cycle example_builtins flaky_world seen_state)) = None
   \<and> attempts (snd (monitor_cycle example_builtins flaky_world
        (fst (monitor_cycle example_builtins flaky_world seen_state)))) = []"
  using seen_key_never_renotified [of seen_state example_builtins "[flaky_world, flaky_world]"
      flaky_world flaky_world]
  by (simp add: flaky_cycles flaky_facts all_calls_def notified_keys_def boost_id_boost_of,
      simp add: seen_state_def)

theorem two_cycles_miss_an_event:
  "feed three_boosts_world = Body (JArr [boost_of ''solana'' ''AAA'', boost_of ''solana'' ''BBB'',
      boost_of ''solana'' ''CCC''])
   \<and> well_formed_boost (boost_of ''solana'' ''AAA'')
   \<and> well_formed_boost (boost_of ''solana'' ''BBB'')
   \<and> well_formed_boost (boost_of ''solana'' ''CCC'')
   \<and> known_boosts fresh_state = {}
   \<and> map fst (all_calls (snd (monitor_boosts example_builtins
        [three_boosts_world, three_boosts_world] fresh_state)))
       = [boost_of ''solana'' ''AAA'', boost_of ''solana'' ''BBB'']
   \<and> delivered (all_calls (snd (monitor_boosts example_builtins
        [three_boosts_world, three_boosts_world] fresh_state))) = []"
  by (simp add: three_boosts_cycles three_boosts_facts fresh_state_simps all_calls_def,
      simp add: well_formed_boost_def boost_of_def)

section \<open>The metrics fetcher\<close>

lemma get_token_info_pairs:
  "map_of kvs ''pairs'' = Some (JArr (p # ps)) \<Longrightarrow>
   get_token_info (Body (JObj kvs)) =
     (case pair_info p of Inl e \<Rightarrow> (None, Some e) | Inr ti \<Rightarrow> (Some ti, None))"
  by (simp add: get_token_info_def fetch_token_info_def bindE_def split: sum.splits)

text \<open>
  C8. \<open>get_token_info\<close> returns \<open>None\<close> when the request fails or anything in its body raises,
  and when the response has no pairs (no \<open>pairs\<close> entry, \<open>null\<close>, or an empty list); with one
  or more pairs the result is built from the first pair alone: its name and symbol, and
  \<open>marketCap\<close>, \<open>fdv\<close>, \<open>priceUsd\<close> and \<open>liquidity.usd\<close> with the defaults 0, 0, "0" and 0.
\<close>

theorem token_info_from_first_pair:
  "get_token_info (Failed e) = (None, Some e)
   \<and> (fetch_token_info r = Inl e \<longrightarrow> get_token_info r = (None, Some e))
   \<and> (map_of kvs ''pairs'' = None \<or> map_of kvs ''pairs'' = Some JNull
        \<or> map_of kvs ''pairs'' = Some (JArr []) \<longrightarrow>
          get_token_info (Body (JObj kvs)) = (None, None))
   \<and> (map_of kvs ''pairs'' = Some (JArr (p # ps)) \<longrightarrow>
        get_token_info (Body (JObj kvs)) =
          (case pair_info p of Inl e \<Rightarrow> (None, Some e) | Inr ti \<Rightarrow> (Some ti, None)))
   \<and> (map_of pkv ''baseToken'' = Some (JObj bt) \<and> map_of bt ''name'' = Some n
        \<and> map_of bt ''symbol'' = Some sy
        \<and> (map_of pkv ''liquidity'' = None \<or> map_of pkv ''liquidity'' = Some (JObj liq)) \<longrightarrow>
        pair_info (JObj pkv) =
          Inr \<lparr>name = n, symbol = sy,
               market_cap = (case map_of pkv ''marketCap'' of None \<Rightarrow> JInt 0 | Some v \<Rightarrow> v),
               fdv = (case map_of pkv ''fdv'' of None \<Rightarrow> JInt 0 | Some v \<Rightarrow> v),
               price_usd = (case map_of pkv ''priceUsd'' of None \<Rightarrow> JStr ''0'' | Some v \<Rightarrow> v),
               liquidity_usd =
                 (case map_of pkv ''liquidity'' of
                    None \<Rightarrow> JInt 0
                  | Some l \<Rightarrow> (case map_of liq ''usd'' of None \<Rightarrow> JInt 0 | Some v \<Rightarrow> v)),
               info = (case map_of pkv ''info'' of None \<Rightarrow> JObj [] | Some v \<Rightarrow> v)\<rparr>)"
proof -
  have a: "get_token_info (Failed e) = (None, Some e)"
    by (simp add: get_token_info_def fetch_token_info_def)
  have b: "fetch_token_info r = Inl e \<longrightarrow> get_token_info r = (None, Some e)"
    by (simp add: get_token_info_def)
  have c: "map_of kvs ''pairs'' = None \<or> map_of kvs ''pairs'' = Some JNull
        \<or> map_of kvs ''pairs'' = Some (JArr []) \<longrightarrow>
          get_token_info (Body (JObj kvs)) = (None, None)"
    by (auto simp: get_token_info_def fetch_token_info_def bindE_def)
  have d: "map_of kvs ''pairs'' = Some (JArr (p # ps)) \<longrightarrow>
        get_token_info (Body (JObj kvs)) =
          (case pair_info p of Inl e \<Rightarrow> (None, Some e) | Inr ti \<Rightarrow> (Some ti, None))"
    using get_token_info_pairs by blast
  have e: "map_of pkv ''baseToken'' = Some (JObj bt) \<and> map_of bt ''name'' = Some n
        \<and> map_of bt ''symbol'' = Some sy
        \<and> (map_of pkv ''liquidity'' = None \<or> map_of pkv ''liquidity'' = Some (JObj liq)) \<longrightarrow>
        pair_info (JObj pkv) =
          Inr \<lparr>name = n, symbol = sy,
               market_cap = (case map_of pkv ''marketCap'' of None \<Rightarrow> JInt 0 | Some v \<Rightarrow> v),
               fdv = (case map_of pkv ''fdv'' of None \<Rightarrow> JInt 0 | Some v \<Rightarrow> v),
               price_usd = (case map_of pkv ''priceUsd'' of None \<Rightarrow> JStr ''0'' | Some v \<Rightarrow> v),
               liquidity_usd =
                 (case map_of pkv ''liquidity'' of
                    None \<Rightarrow> JInt 0
                  | Some l \<Rightarrow> (case map_of liq ''usd'' of None \<Rightarrow> JInt 0 | Some v \<Rightarrow> v)),
               info = (case map_of pkv ''info'' of None \<Rightarrow> JObj [] | Some v \<Rightarrow> v)\<rparr>"
    by (auto simp: pair_info_def bindE_def)
  from a b c d e show ?thesis by blast
qed

lemma no_links_token_info: "get_token_info (Body no_links_body) = (Some no_links_info, None)"
  by (simp add: get_token_info_def fetch_token_info_def bindE_def no_links_body_def pair_info_def
      no_links_info_def)

theorem token_info_from_first_pair_witness:
  "fetch_token_info (Body (JArr [])) = Inl AttributeError
   \<and> get_token_info (Body (JArr [])) = (None, Some AttributeError)
   \<and> get_token_info (Body (JObj [(''pairs'', JNull)])) = (None, None)
   \<and> get_token_info (Body no_links_body) = (Some no_links_info, None)
   \<and> fdv no_links_info = JInt 0 \<and> liquidity_usd no_links_info = JInt 0
   \<and> pair_info (JObj [(''baseToken'', JObj [(''name'', JStr ''U''), (''symbol'', JStr ''UK'')])])
       = Inr \<lparr>name = JStr ''U'', symbol = JStr ''UK'', market_cap = JInt 0, fdv = JInt 0,
              price_usd = JStr ''0'', liquidity_usd = JInt 0, info = JObj []\<rparr>"
  using token_info_from_first_pair [of Timeout "Body (JArr [])" "[(''pairs'', JNull)]" JNull "[]"
      "[(''baseToken'', JObj [(''name'', JStr ''U''), (''symbol'', JStr ''UK'')])]"
      "[(''name'', JStr ''U''), (''symbol'', JStr ''UK'')]" "JStr ''U''" "JStr ''UK''" "[]"]
    token_info_from_first_pair [of AttributeError "Body (JArr [])" "[(''pairs'', JArr
       [JObj [(''baseToken'', JObj [(''name'', JStr ''T''), (''symbol'', JStr ''TK'')]),
                   (''marketCap'', JInt 1500), (''priceUsd'', JStr ''0''),
                   (''info'', JObj [(''websites'', JArr []), (''socials'', JArr [])])],
             JObj [(''baseToken'', JObj [(''name'', JStr ''U''), (''symbol'', JStr ''UK'')])]])]"
       "JObj [(''baseToken'', JObj [(''name'', JStr ''T''), (''symbol'', JStr ''TK'')]),
                   (''marketCap'', JInt 1500), (''priceUsd'', JStr ''0''),
                   (''info'', JObj [(''websites'', JArr []), (''socials'', JArr [])])]"
       "[JObj [(''baseToken'', JObj [(''name'', JStr ''U''), (''symbol'', JStr ''UK'')])]]"
       "[(''baseToken'', JObj [(''name'', JStr ''T''), (''symbol'', JStr ''TK'')]),
                   (''marketCap'', JInt 1500), (''priceUsd'', JStr ''0''),
                   (''info'', JObj [(''websites'', JArr []), (''socials'', JArr [])])]"
       "[(''name'', JStr ''T''), (''symbol'', JStr ''TK'')]" "JStr ''T''" "JStr ''TK''" "[]"]
  by (simp add: no_links_body_def no_links_info_def fetch_token_info_def bindE_def)

section \<open>The text of the messages\<close>

















section \<open>The social-links block\<close>

lemma links_under_falsy:
  assumes "\<forall>v. map_of ikv key = Some v \<longrightarrow> \<not> truthy v"
  shows "links_under key f (JObj ikv) = Inr []"
proof (cases "map_of ikv key")
  case None
  then have "key \<notin> fst ` set ikv" by (simp add: map_of_eq_None_iff)
  then show ?thesis by (simp add: links_under_def bindE_def)
next
  case (Some v)
  with assms have "\<not> truthy v" by simp
  with Some show ?thesis by (simp add: links_under_def bindE_def)
qed

lemma format_social_links_empty:
  assumes "\<forall>v. map_of ikv ''websites'' = Some v \<longrightarrow> \<not> truthy v"
    "\<forall>v. map_of ikv ''socials'' = Some v \<longrightarrow> \<not> truthy v"
  shows "format_social_links B (JObj ikv) = Inr ''No social links available''"
  using links_under_falsy [OF assms(1), of "website_link B"]
    links_under_falsy [OF assms(2), of "social_link B"]
  by (simp add: format_social_links_def bindE_def)

lemma full_message_suffix:
  assumes a: "full_message B boost ti = Inr msg" and t: "truthy (info ti)"
    and f: "format_social_links B (info ti) = Inr social"
  shows "suffix (nl @ ''*Social Links:*'' @ nl @ social) msg"
proof -
  define z where "z = nl @ ''*Social Links:*'' @ nl @ social"
  note zf = z_def [symmetric, simplified]
  have "case full_message B boost ti of Inl e \<Rightarrow> True | Inr m \<Rightarrow> suffix z m"
    unfolding full_message_def
    by (auto simp: bindE_def t f zf intro!: suffix_appendI suffix_ConsI split: sum.splits)
  with a show ?thesis by (simp add: z_def)
qed

text \<open>Without a truthy \<open>info\<close> the message ends with the section of the important links.\<close>

lemma full_message_no_block:
  assumes a: "full_message B boost ti = Inr msg" and t: "\<not> truthy (info ti)"
  shows "\<exists>url. dict_get boost ''url'' JNull = Inr url
     \<and> suffix (nl @ ''*'' @ link_icon @ '' Important Links:*'' @ nl
          @ (if truthy url then bullet @ '' [DexScreener]('' @ py_str B url @ '')'' @ nl else []))
        msg"
proof (cases boost)
  case (JObj kvs)
  define url where "url = (case map_of kvs ''url'' of None \<Rightarrow> JNull | Some v \<Rightarrow> v)"
  have d: "dict_get boost ''url'' JNull = Inr url" by (simp add: JObj url_def)
  have g: "getitem boost ''url'' = Inr url" if "truthy url"
    using that by (cases "map_of kvs ''url''") (simp_all add: JObj url_def)
  define z where "z = nl @ ''*'' @ link_icon @ '' Important Links:*'' @ nl
          @ (if truthy url then bullet @ '' [DexScreener]('' @ py_str B url @ '')'' @ nl else [])"
  have "case full_message B boost ti of Inl e \<Rightarrow> True | Inr m \<Rightarrow> suffix z m"
  proof (cases "truthy url")
    case True
    note zf = z_def [symmetric, simplified True if_True, simplified]
    show ?thesis
      unfolding full_message_def
      by (auto simp: bindE_def t d g [OF True] True zf intro!: suffix_appendI suffix_ConsI
          split: sum.splits)
  next
    case False
    note zf = z_def [symmetric, simplified False if_False, simplified]
    show ?thesis
      unfolding full_message_def
      by (auto simp: bindE_def t d False zf intro!: suffix_appendI suffix_ConsI
          split: sum.splits)
  qed
  with a have "suffix z msg" by simp
  with d show ?thesis unfolding z_def by blast
qed (use a in \<open>simp_all add: full_message_def bindE_def\<close>)

lemma full_message_total:
  assumes w: "fallback_message B boost = Inr fb"
    and n: "format_number (market_cap ti) = Inr mc" "format_number (fdv ti) = Inr fd"
      "format_number (liquidity_usd ti) = Inr lq"
    and p: "py_float B (price_usd ti) = Inr price"
    and s: "truthy (info ti) \<longrightarrow> format_social_links B (info ti) = Inr social"
  shows "\<exists>m. full_message B boost ti = Inr m"
proof -
  from w obtain kvs where b: "boost = JObj kvs"
    by (cases boost) (simp_all add: fallback_message_def bindE_def)
  from w obtain c t a tot fa ft where f:
    "getitem boost ''chainId'' = Inr c" "getitem boost ''tokenAddress'' = Inr t"
    "getitem boost ''amount'' = Inr a" "format_number a = Inr fa"
    "getitem boost ''totalAmount'' = Inr tot" "format_number tot = Inr ft"
    by (auto simp: fallback_message_def bindE_def split: sum.splits)
  show ?thesis
    unfolding full_message_def
    by (cases "map_of kvs ''description''"; cases "map_of kvs ''url''";
        cases "truthy (info ti)")
       (simp_all add: bindE_def f n p s, simp_all add: b)
qed

lemma no_links_info_simps:
  "info no_links_info = JObj [(''websites'', JArr []), (''socials'', JArr [])]"
  "market_cap no_links_info = JInt 1500" "fdv no_links_info = JInt 0"
  "liquidity_usd no_links_info = JInt 0" "price_usd no_links_info = JStr ''0''"
  "name no_links_info = JStr ''T''" "symbol no_links_info = JStr ''TK''"
  by (simp_all add: no_links_info_def)

lemma no_info_info_simps:
  "info no_info_info = JObj []"
  "market_cap no_info_info = JInt 1500" "fdv no_info_info = JInt 0"
  "liquidity_usd no_info_info = JInt 0" "price_usd no_info_info = JStr ''0''"
  "name no_info_info = JStr ''T''" "symbol no_info_info = JStr ''TK''"
  by (simp_all add: no_info_info_def)

lemma no_info_token_info: "get_token_info (Body no_info_body) = (Some no_info_info, None)"
  by (simp add: get_token_info_def fetch_token_info_def bindE_def no_info_body_def pair_info_def
      no_info_info_def)

lemma py_float_zero: "py_float example_builtins (JStr ''0'') = Inr (Finite 0)"
  by (simp add: py_float_def example_builtins_def)

lemma no_links_message:
  "build_message example_builtins (boost_of ''solana'' ''ABC'') (Some no_links_info) =
     Inr (header @ ''*Token:* T (TK)'' @ nl @ ''*Chain:* solana'' @ nl @ ''*Address:* `ABC`'' @ nl @ nl
          @ ''*'' @ moneybag @ '' Token Metrics:*'' @ nl
          @ bullet @ '' Market Cap: $1.50K'' @ nl
          @ bullet @ '' FDV: $0.00'' @ nl
          @ bullet @ '' Price: $0.00000000'' @ nl
          @ bullet @ '' Liquidity: $0.00'' @ nl @ nl
          @ ''*'' @ rocket @ '' Boost Details:*'' @ nl
          @ bullet @ '' Boost Amount: $100.00'' @ nl
          @ bullet @ '' Total Amount: $500.00'' @ nl
          @ nl @ ''*'' @ link_icon @ '' Important Links:*'' @ nl
          @ nl @ ''*Social Links:*'' @ nl @ ''No social links available'')"
proof -
  have fs: "format_social_links example_builtins (JObj [(''websites'', JArr []), (''socials'', JArr [])])
      = Inr ''No social links available''"
    by (rule format_social_links_empty) simp_all
  show ?thesis
    by (simp add: build_message_def full_message_def no_links_info_simps boost_of_def bindE_def
        format_number_examples py_float_zero fs fmt_zero py_str_def)
qed

lemma no_info_message:
  "build_message example_builtins (boost_of ''solana'' ''ABC'') (Some no_info_info) =
     Inr (header @ ''*Token:* T (TK)'' @ nl @ ''*Chain:* solana'' @ nl @ ''*Address:* `ABC`'' @ nl @ nl
          @ ''*'' @ moneybag @ '' Token Metrics:*'' @ nl
          @ bullet @ '' Market Cap: $1.50K'' @ nl
          @ bullet @ '' FDV: $0.00'' @ nl
          @ bullet @ '' Price: $0.00000000'' @ nl
          @ bullet @ '' Liquidity: $0.00'' @ nl @ nl
          @ ''*'' @ rocket @ '' Boost Details:*'' @ nl
          @ bullet @ '' Boost Amount: $100.00'' @ nl
          @ bullet @ '' Total Amount: $500.00'' @ nl
          @ nl @ ''*'' @ link_icon @ '' Important Links:*'' @ nl)"
  by (simp add: build_message_def full_message_def no_info_info_simps boost_of_def bindE_def
      format_number_examples py_float_zero fmt_zero py_str_def)

text \<open>
  C7. When the links are empty the message does not carry the text \<open>no links available\<close>:
  with an \<open>info\<close> object whose \<open>websites\<close> and \<open>socials\<close> are empty lists the block is the
  heading followed by \<open>No social links available\<close>; and from a pair without an \<open>info\<close>
  entry the message ends with the section of the important links, the words
  \<open>Social Links\<close> occurring nowhere in it.
\<close>

theorem placeholder_text_differs:
  "get_token_info (Body no_links_body) = (Some no_links_info, None)
   \<and> info no_links_info = JObj [(''websites'', JArr []), (''socials'', JArr [])]
   \<and> format_social_links example_builtins (info no_links_info) = Inr ''No social links available''
   \<and> \<not> sublist ''no links available'' ''No social links available''
   \<and> \<not> isl (build_message example_builtins (boost_of ''solana'' ''ABC'') (Some no_links_info))
   \<and> \<not> sublist ''no links available''
        (projr (build_message example_builtins (boost_of ''solana'' ''ABC'') (Some no_links_info)))
   \<and> get_token_info (Body no_info_body) = (Some no_info_info, None)
   \<and> info no_info_info = JObj []
   \<and> \<not> isl (build_message example_builtins (boost_of ''solana'' ''ABC'') (Some no_info_info))
   \<and> \<not> sublist ''Social Links''
        (projr (build_message example_builtins (boost_of ''solana'' ''ABC'') (Some no_info_info)))
   \<and> \<not> sublist ''links available''
        (projr (build_message example_builtins (boost_of ''solana'' ''ABC'') (Some no_info_info)))"
proof -
  have fs: "format_social_links example_builtins (info no_links_info)
      = Inr ''No social links available''"
    unfolding no_links_info_simps by (rule format_social_links_empty) simp_all
  have a: "\<not> sublist ''no links available'' ''No social links available''"
    by (simp add: sublist_Cons_right)
  have b: "\<not> sublist ''no links available''
        (projr (build_message example_builtins (boost_of ''solana'' ''ABC'') (Some no_links_info)))"
    unfolding no_links_message
    by (simp add: sublist_Cons_right header_def fire_def nl_def moneybag_def bullet_def
        rocket_def link_icon_def)
  have c: "\<not> sublist ''Social Links''
        (projr (build_message example_builtins (boost_of ''solana'' ''ABC'') (Some no_info_info)))"
    unfolding no_info_message
    by (simp add: sublist_Cons_right header_def fire_def nl_def moneybag_def bullet_def
        rocket_def link_icon_def)
  have d: "\<not> sublist ''links available''
        (projr (build_message example_builtins (boost_of ''solana'' ''ABC'') (Some no_info_info)))"
    unfolding no_info_message
    by (simp add: sublist_Cons_right header_def fire_def nl_def moneybag_def bullet_def
        rocket_def link_icon_def)
  have e: "\<not> isl (build_message example_builtins (boost_of ''solana'' ''ABC'') (Some no_links_info))"
    "\<not> isl (build_message example_builtins (boost_of ''solana'' ''ABC'') (Some no_info_info))"
    by (simp_all add: no_links_message no_info_message)
  from fs a b c d e no_links_token_info no_info_token_info no_links_info_simps(1)
    no_info_info_simps(1)
  show ?thesis by (simp only: simp_thms)
qed

text \<open>
  C7, as amended. When the token information carries a non-empty \<open>info\<close> object whose
  \<open>websites\<close> and \<open>socials\<close> entries are absent or empty, the social-links block is not left
  out: the message ends with the heading \<open>*Social Links:*\<close> followed by the placeholder,
  whose text is \<open>No social links available\<close>. When the \<open>info\<close> of the token information is
  empty, as it is for a pair without an \<open>info\<close> entry, the block is left out: the message
  ends with the section of the important links. The message is built whenever the reduced
  message of the event is, the three amounts of the token information are rendered by the
  formatter, the price converts to a float and the links are formatted.
\<close>

theorem empty_links_placeholder:
  "(info ti = JObj ikv \<and> ikv \<noteq> []
      \<and> (\<forall>v. map_of ikv ''websites'' = Some v \<longrightarrow> \<not> truthy v)
      \<and> (\<forall>v. map_of ikv ''socials'' = Some v \<longrightarrow> \<not> truthy v) \<longrightarrow>
        format_social_links B (info ti) = Inr ''No social links available''
      \<and> (build_message B boost (Some ti) = Inr msg \<longrightarrow>
           suffix (nl @ ''*Social Links:*'' @ nl @ ''No social links available'') msg))
   \<and> (\<not> truthy (info ti) \<and> build_message B boost (Some ti) = Inr msg \<longrightarrow>
        (\<exists>url. dict_get boost ''url'' JNull = Inr url
           \<and> suffix (nl @ ''*'' @ link_icon @ '' Important Links:*'' @ nl
                @ (if truthy url then bullet @ '' [DexScreener]('' @ py_str B url @ '')'' @ nl
                   else []))
               msg))
   \<and> ((\<exists>fb. build_message B boost None = Inr fb)
        \<and> (\<exists>mc. format_number (market_cap ti) = Inr mc)
        \<and> (\<exists>fd. format_number (fdv ti) = Inr fd)
        \<and> (\<exists>lq. format_number (liquidity_usd ti) = Inr lq)
        \<and> (\<exists>p. py_float B (price_usd ti) = Inr p)
        \<and> (truthy (info ti) \<longrightarrow> (\<exists>s. format_social_links B (info ti) = Inr s)) \<longrightarrow>
        (\<exists>m. build_message B boost (Some ti) = Inr m))"
proof -
  have b: "build_message B boost (Some ti) = full_message B boost ti"
    "build_message B boost None = fallback_message B boost"
    by (simp_all add: build_message_def)
  have one: "format_social_links B (info ti) = Inr ''No social links available''
      \<and> (build_message B boost (Some ti) = Inr msg \<longrightarrow>
           suffix (nl @ ''*Social Links:*'' @ nl @ ''No social links available'') msg)"
    if h: "info ti = JObj ikv" "ikv \<noteq> []"
      "\<forall>v. map_of ikv ''websites'' = Some v \<longrightarrow> \<not> truthy v"
      "\<forall>v. map_of ikv ''socials'' = Some v \<longrightarrow> \<not> truthy v"
  proof -
    have fs: "format_social_links B (info ti) = Inr ''No social links available''"
      unfolding h(1) using h(3,4) by (rule format_social_links_empty)
    from h(1,2) have t: "truthy (info ti)" by simp
    from full_message_suffix [OF _ t fs] fs b(1) show ?thesis by simp
  qed
  have two: "\<exists>url. dict_get boost ''url'' JNull = Inr url
           \<and> suffix (nl @ ''*'' @ link_icon @ '' Important Links:*'' @ nl
                @ (if truthy url then bullet @ '' [DexScreener]('' @ py_str B url @ '')'' @ nl
                   else []))
               msg"
    if "\<not> truthy (info ti)" "build_message B boost (Some ti) = Inr msg"
    using full_message_no_block [of B boost ti msg] that b(1) by simp
  have three: "\<exists>m. build_message B boost (Some ti) = Inr m"
    if "\<exists>fb. build_message B boost None = Inr fb"
      "\<exists>mc. format_number (market_cap ti) = Inr mc"
      "\<exists>fd. format_number (fdv ti) = Inr fd"
      "\<exists>lq. format_number (liquidity_usd ti) = Inr lq"
      "\<exists>p. py_float B (price_usd ti) = Inr p"
      "truthy (info ti) \<longrightarrow> (\<exists>s. format_social_links B (info ti) = Inr s)"
  proof -
    from that obtain fb mc fd lq p where
      "fallback_message B boost = Inr fb" "format_number (market_cap ti) = Inr mc"
      "format_number (fdv ti) = Inr fd" "format_number (liquidity_usd ti) = Inr lq"
      "py_float B (price_usd ti) = Inr p"
      unfolding b(2) by blast
    moreover from that(6) obtain s where
      "truthy (info ti) \<longrightarrow> format_social_links B (info ti) = Inr s" by blast
    ultimately show ?thesis unfolding b(1) by (rule full_message_total)
  qed
  from one two three show ?thesis by blast
qed

theorem empty_links_placeholder_witness:
  "info no_links_info = JObj [(''websites'', JArr []), (''socials'', JArr [])]
   \<and> get_token_info (Body no_links_body) = (Some no_links_info, None)
   \<and> format_social_links example_builtins (info no_links_info) = Inr ''No social links available''
   \<and> \<not> isl (build_message example_builtins (boost_of ''solana'' ''ABC'') (Some no_links_info))
   \<and> suffix (nl @ ''*Social Links:*'' @ nl @ ''No social links available'')
        (projr (build_message example_builtins (boost_of ''solana'' ''ABC'') (Some no_links_info)))
   \<and> get_token_info (Body no_info_body) = (Some no_info_info, None)
   \<and> \<not> truthy (info no_info_info)
   \<and> \<not> isl (build_message example_builtins (boost_of ''solana'' ''ABC'') (Some no_info_info))
   \<and> suffix (nl @ ''*'' @ link_icon @ '' Important Links:*'' @ nl)
        (projr (build_message example_builtins (boost_of ''solana'' ''ABC'') (Some no_info_info)))"
proof -
  let ?e = "boost_of ''solana'' ''ABC''"
  let ?b = "build_message example_builtins ?e (Some no_links_info)"
  let ?c = "build_message example_builtins ?e (Some no_info_info)"
  note t = empty_links_placeholder [of no_links_info
      "[(''websites'', JArr []), (''socials'', JArr [])]" example_builtins ?e "projr ?b"]
  note u = empty_links_placeholder [of no_info_info "[]" example_builtins ?e "projr ?c"]
  have h: "info no_links_info = JObj [(''websites'', JArr []), (''socials'', JArr [])]"
    "[(''websites'', JArr []), (''socials'', JArr [])] \<noteq> []"
    "\<forall>v. map_of [(''websites'', JArr []), (''socials'', JArr [])] ''websites'' = Some v
        \<longrightarrow> \<not> truthy v"
    "\<forall>v. map_of [(''websites'', JArr []), (''socials'', JArr [])] ''socials'' = Some v
        \<longrightarrow> \<not> truthy v"
    by (simp_all add: no_links_info_simps)
  from t h have fs: "format_social_links example_builtins (info no_links_info)
      = Inr ''No social links available''" by blast
  have fb: "\<exists>fb. build_message example_builtins ?e None = Inr fb"
    by (simp add: build_message_def fallback_boost_of)
  have g: "(\<exists>mc. format_number (market_cap no_links_info) = Inr mc)
      \<and> (\<exists>fd. format_number (fdv no_links_info) = Inr fd)
      \<and> (\<exists>lq. format_number (liquidity_usd no_links_info) = Inr lq)
      \<and> (\<exists>p. py_float example_builtins (price_usd no_links_info) = Inr p)"
    by (simp add: no_links_info_simps format_number_examples py_float_zero)
  from fs have "truthy (info no_links_info)
      \<longrightarrow> (\<exists>s. format_social_links example_builtins (info no_links_info) = Inr s)" by simp
  with t fb g obtain m where m: "?b = Inr m" by blast
  then have pm: "?b = Inr (projr ?b)" by simp
  from t h pm have s1: "suffix (nl @ ''*Social Links:*'' @ nl @ ''No social links available'')
      (projr ?b)" by blast
  have nt: "\<not> truthy (info no_info_info)" by (simp add: no_info_info_simps)
  have g': "(\<exists>mc. format_number (market_cap no_info_info) = Inr mc)
      \<and> (\<exists>fd. format_number (fdv no_info_info) = Inr fd)
      \<and> (\<exists>lq. format_number (liquidity_usd no_info_info) = Inr lq)
      \<and> (\<exists>p. py_float example_builtins (price_usd no_info_info) = Inr p)"
    by (simp add: no_info_info_simps format_number_examples py_float_zero)
  from u fb g' nt obtain m' where m': "?c = Inr m'" by blast
  then have pc: "?c = Inr (projr ?c)" by simp
  from u nt pc obtain url where url: "dict_get ?e ''url'' JNull = Inr url"
    and s2: "suffix (nl @ ''*'' @ link_icon @ '' Important Links:*'' @ nl
                @ (if truthy url then bullet @ '' [DexScreener]('' @ py_str example_builtins url @ '')'' @ nl
                   else [])) (projr ?c)"
    by blast
  from url have "url = JNull" by (simp add: boost_of_def)
  with s2 have s2': "suffix (nl @ ''*'' @ link_icon @ '' Important Links:*'' @ nl) (projr ?c)"
    by simp
  from m have i1: "\<not> isl ?b" by simp
  from m' have i2: "\<not> isl ?c" by simp
  from h(1) no_links_token_info fs i1 s1 no_info_token_info nt i2 s2' show ?thesis
    by (simp only: simp_thms)
qed

end
